theory Spec2Isabelle
  imports Main "HOL-Library.AList"
begin

section \<open>Python strings\<close>

text \<open>
  A Python \<open>str\<close> is a sequence of code points. It is modelled as a \<open>string\<close>, each
  \<open>char\<close> standing for one code point below 256 (the Latin-1 range). The predicates
  below are Python's \<open>str.isspace\<close>, \<open>str.isdecimal\<close> and \<open>str.lower\<close> on that range;
  \<open>str.split()\<close>, \<open>str.strip()\<close> and the class \<open>\s\<close> of \<open>re\<close> all use the same
  whitespace test.
\<close>

definition isspace :: "char \<Rightarrow> bool" where
  "isspace c = (of_char c \<in> set [9, 10, 11, 12, 13, 28, 29, 30, 31, 32, 133, 160 :: nat])"

definition isdecimal :: "char \<Rightarrow> bool" where
  "isdecimal c = (48 \<le> (of_char c :: nat) \<and> (of_char c :: nat) \<le> 57)"

definition isupper_ascii :: "char \<Rightarrow> bool" where
  "isupper_ascii c = (65 \<le> (of_char c :: nat) \<and> (of_char c :: nat) \<le> 90)"

definition islower_ascii :: "char \<Rightarrow> bool" where
  "islower_ascii c = (97 \<le> (of_char c :: nat) \<and> (of_char c :: nat) \<le> 122)"

definition isalnum_ascii :: "char \<Rightarrow> bool" where
  "isalnum_ascii c = (islower_ascii c \<or> isupper_ascii c \<or> isdecimal c)"

definition lower_char :: "char \<Rightarrow> char" where
  "lower_char c =
     (let n = (of_char c :: nat)
      in if (65 \<le> n \<and> n \<le> 90) \<or> (192 \<le> n \<and> n \<le> 222 \<and> n \<noteq> 215)
         then char_of (n + 32) else c)"

definition lower :: "string \<Rightarrow> string" where
  "lower s = map lower_char s"

text \<open>\<open>sep.join(xs)\<close>.\<close>

fun join :: "string \<Rightarrow> string list \<Rightarrow> string" where
  "join sep [] = []"
| "join sep [x] = x"
| "join sep (x # y # ys) = x @ sep @ join sep (y # ys)"

text \<open>
  \<open>s.split()\<close> with no separator: skip a run of whitespace, take the run of
  non-whitespace characters that follows as one word, and go on with the rest.
\<close>

function split :: "string \<Rightarrow> string list" where
  "split s =
     (case dropWhile isspace s of
        [] \<Rightarrow> []
      | c # cs \<Rightarrow> takeWhile (\<lambda>x. \<not> isspace x) (c # cs)
                   # split (dropWhile (\<lambda>x. \<not> isspace x) (c # cs)))"
  by pat_completeness auto
termination
proof (relation "measure length")
  show "wf (measure length)" by simp
next
  fix s :: string and c cs
  assume h: "dropWhile isspace s = c # cs"
  have "\<not> isspace c"
    using h hd_dropWhile [of isspace s] by force
  then have "dropWhile (\<lambda>x. \<not> isspace x) (c # cs) = dropWhile (\<lambda>x. \<not> isspace x) cs"
    by simp
  moreover have "length (dropWhile (\<lambda>x. \<not> isspace x) cs) \<le> length cs"
    by (rule length_dropWhile_le)
  moreover have "length (c # cs) \<le> length s"
    using h length_dropWhile_le [of isspace s] by simp
  ultimately show "(dropWhile (\<lambda>x. \<not> isspace x) (c # cs), s) \<in> measure length"
    by simp
qed

declare split.simps [simp del]

text \<open>\<open>s.strip()\<close>: whitespace removed at both ends.\<close>

definition strip :: "string \<Rightarrow> string" where
  "strip s = rev (dropWhile isspace (rev (dropWhile isspace s)))"

text \<open>\<open>s.startswith(p)\<close> and \<open>k in s\<close> (substring test).\<close>

definition startswith :: "string \<Rightarrow> string \<Rightarrow> bool" where
  "startswith s p = (take (length p) s = p)"

fun contains :: "string \<Rightarrow> string \<Rightarrow> bool" where
  "contains [] k = (k = [])"
| "contains (c # cs) k = (startswith (c # cs) k \<or> contains cs k)"

text \<open>\<open>s.split(sep)\<close> for a separator of one character: never an empty list.\<close>

fun split_on :: "char \<Rightarrow> string \<Rightarrow> string list" where
  "split_on sep [] = [[]]"
| "split_on sep (c # cs) =
     (if c = sep then [] # split_on sep cs
      else (case split_on sep cs of
              [] \<Rightarrow> [[c]]
            | x # xs \<Rightarrow> (c # x) # xs))"

text \<open>\<open>str(n)\<close> for an integer, as an f-string prints it.\<close>

definition digit_char :: "nat \<Rightarrow> char" where
  "digit_char d = ''0123456789'' ! d"

function str_nat :: "nat \<Rightarrow> string" where
  "str_nat n = (if n < 10 then [digit_char n] else str_nat (n div 10) @ [digit_char (n mod 10)])"
  by pat_completeness auto
termination
  by (relation "measure id") auto

declare str_nat.simps [simp del]

definition str_int :: "int \<Rightarrow> string" where
  "str_int i = (if i < 0 then CHR ''-'' # str_nat (nat (- i)) else str_nat (nat i))"

subsection \<open>Regular expressions\<close>

text \<open>
  The patterns of this program are sequences of one-character atoms, each taken once,
  \<open>*\<close> times or \<open>+\<close> times. \<open>re_match\<close> is the backtracking matcher of \<open>re\<close> on them: a
  quantifier takes as many characters as it can and gives them back one at a time when
  the rest of the pattern fails. It returns the length of the match found at the start
  of the string.
\<close>

datatype atom = Lit char | Space | Digit | NonAlnum

datatype quant = One | Star | Plus

type_synonym regex = "(atom \<times> quant) list"

fun atom_matches :: "atom \<Rightarrow> char \<Rightarrow> bool" where
  "atom_matches (Lit a) c = (c = a)"
| "atom_matches Space c = isspace c"
| "atom_matches Digit c = isdecimal c"
| "atom_matches NonAlnum c = (\<not> isalnum_ascii c)"

fun re_match :: "regex \<Rightarrow> string \<Rightarrow> nat option" where
  "re_match [] s = Some 0"
| "re_match ((a, One) # r) [] = None"
| "re_match ((a, One) # r) (c # cs) =
     (if atom_matches a c then map_option Suc (re_match r cs) else None)"
| "re_match ((a, Plus) # r) [] = None"
| "re_match ((a, Plus) # r) (c # cs) =
     (if atom_matches a c then map_option Suc (re_match ((a, Star) # r) cs) else None)"
| "re_match ((a, Star) # r) [] = re_match r []"
| "re_match ((a, Star) # r) (c # cs) =
     (if atom_matches a c
      then (case re_match ((a, Star) # r) cs of
              Some n \<Rightarrow> Some (Suc n)
            | None \<Rightarrow> re_match r (c # cs))
      else re_match r (c # cs))"

text \<open>
  \<open>re.sub(pattern, repl, s)\<close>: the matches are searched from left to right and do not
  overlap; an empty match is replaced too and the scan moves on by one character.
\<close>

function re_sub :: "regex \<Rightarrow> string \<Rightarrow> string \<Rightarrow> string" where
  "re_sub p repl [] = (case re_match p [] of None \<Rightarrow> [] | Some n \<Rightarrow> repl)"
| "re_sub p repl (c # cs) =
     (case re_match p (c # cs) of
        None \<Rightarrow> c # re_sub p repl cs
      | Some 0 \<Rightarrow> repl @ c # re_sub p repl cs
      | Some (Suc n) \<Rightarrow> repl @ re_sub p repl (drop n cs))"
  by pat_completeness auto
termination
  by (relation "measure (\<lambda>(p, repl, s). length s)") auto

declare re_sub.simps [simp del]

definition newline :: char where
  "newline = CHR 0x0A"

section \<open>The outside world\<close>

text \<open>
  Exceptions are values; \<open>message e\<close> is \<open>str(e)\<close>.
\<close>

datatype exn =
    FileNotFoundError string
  | ValueError string
  | RequestException string
  | OSError string
  | KeyError string
  | TypeError string
  | OtherError string

fun message :: "exn \<Rightarrow> string" where
  "message (FileNotFoundError m) = m"
| "message (ValueError m) = m"
| "message (RequestException m) = m"
| "message (OSError m) = m"
| "message (KeyError k) = [CHR 0x27] @ k @ [CHR 0x27]"
| "message (TypeError m) = m"
| "message (OtherError m) = m"

text \<open>
  The state the program changes is the file system; \<open>clock\<close> counts the calls made to
  the outside so far, so that a service may answer the same request differently at
  different times. Logging is not modelled.
\<close>

record world =
  clock :: nat
  files :: "(string \<times> string) list"

definition tick :: "world \<Rightarrow> world" where
  "tick w = w\<lparr>clock := Suc (clock w)\<rparr>"

text \<open>
  The collaborators, each a function of the time of the call:
  \<^item> \<open>requests_get\<close>: \<open>requests.get\<close> followed by \<open>raise_for_status\<close>, the body or the
    exception;
  \<^item> \<open>tempfile_create\<close>: \<open>tempfile.NamedTemporaryFile(delete=False, suffix='.pdf')\<close>, the
    name of the file it creates;
  \<^item> \<open>write_error\<close>: the exception, if any, with which a write to the path fails
    (for the output file, creating its directory included);
  \<^item> \<open>pdf_pages\<close>: \<open>pdfplumber\<close> on the content of a file, the text of \<open>extract_text()\<close>
    for each page;
  \<^item> \<open>chat_completion\<close>: the request to the model with a system and a user message,
    \<open>response.choices[0].message.content\<close> (a string, or \<open>None\<close> for a response with no
    text) or the exception;
  \<^item> \<open>str_format\<close>: \<open>str.format\<close> with keyword arguments, which raises on a template
    with an unknown or malformed field.
  Reading a file that exists and deleting a file that exists do not fail.
\<close>

datatype pyval = PyStr string | PyInt int

record outside =
  requests_get :: "nat \<Rightarrow> string \<Rightarrow> exn + string"
  tempfile_create :: "nat \<Rightarrow> exn + string"
  write_error :: "nat \<Rightarrow> string \<Rightarrow> exn option"
  pdf_pages :: "nat \<Rightarrow> string \<Rightarrow> exn + string list"
  chat_completion :: "nat \<Rightarrow> string \<Rightarrow> string \<Rightarrow> string \<Rightarrow> exn + string option"
  str_format :: "string \<Rightarrow> (string \<times> pyval) list \<Rightarrow> exn + string"

section \<open>The analyzer\<close>

text \<open>
  The fields that \<open>FinancialReportAnalyzer.__init__\<close> sets, the OpenAI client apart
  (it is \<open>chat_completion\<close> above). The prompt dictionary is an association list: a
  Python \<open>dict\<close> keeps its keys in insertion order, and an assignment to a key already
  present replaces the value in place, as \<open>AList.update\<close> does. The methods keep their
  names, without the leading underscore of the private ones.
\<close>

record analyzer =
  chunk_size :: int
  model :: string
  prompt_file :: string
  prompts :: "(string \<times> string) list"

definition dict_get :: "(string \<times> string) list \<Rightarrow> string \<Rightarrow> string \<Rightarrow> string" where
  "dict_get d k dflt = (case map_of d k of Some v \<Rightarrow> v | None \<Rightarrow> dflt)"

subsection \<open>Reading text files\<close>

text \<open>
  A file opened in text mode is read with \<open>\r\n\<close> and \<open>\r\<close> turned into \<open>\n\<close>.
\<close>

fun universal_newlines :: "string \<Rightarrow> string" where
  "universal_newlines [] = []"
| "universal_newlines [c] = (if c = CHR 0x0D then [newline] else [c])"
| "universal_newlines (c # d # cs) =
     (if c = CHR 0x0D \<and> d = newline then newline # universal_newlines cs
      else if c = CHR 0x0D then newline # universal_newlines (d # cs)
      else c # universal_newlines (d # cs))"

subsection \<open>\<open>_load_prompts\<close>\<close>

text \<open>The loop over \<open>sections[1:]\<close>.\<close>

fun load_sections :: "string list \<Rightarrow> (string \<times> string) list \<Rightarrow> (string \<times> string) list" where
  "load_sections [] store = store"
| "load_sections (section # sections) store =
     (if CHR '']'' \<notin> set section then load_sections sections store
      else (let section_name = takeWhile (\<lambda>c. c \<noteq> CHR '']'') section;
                section_content = tl (dropWhile (\<lambda>c. c \<noteq> CHR '']'') section)
            in load_sections sections
                 (AList.update (strip section_name) (strip section_content) store)))"

definition parse_prompts :: "string \<Rightarrow> (string \<times> string) list" where
  "parse_prompts content = load_sections (tl (split_on CHR ''['' content)) []"

definition required_prompts :: "string list" where
  "required_prompts = [''CHUNK_ANALYSIS_PROMPT'', ''SUMMARY_COMBINATION_PROMPT'']"

fun check_required :: "string \<Rightarrow> (string \<times> string) list \<Rightarrow> string list \<Rightarrow> exn option" where
  "check_required file store [] = None"
| "check_required file store (required # rest) =
     (if map_of store required = None
      then Some (ValueError (''Required prompt section '' @ [CHR 0x27, CHR ''[''] @ required
                   @ [CHR '']'', CHR 0x27] @ '' not found in '' @ file))
      else check_required file store rest)"

definition load_prompts :: "string \<Rightarrow> world \<Rightarrow> exn + (string \<times> string) list" where
  "load_prompts file w =
     (case map_of (files w) file of
        None \<Rightarrow> Inl (FileNotFoundError (''Prompt file '' @ [CHR 0x27] @ file @ [CHR 0x27]
                  @ '' not found. Please ensure the file exists in the current directory.''))
      | Some content \<Rightarrow>
          (let content = universal_newlines content;
               store = parse_prompts content
           in case check_required file store required_prompts of
                Some e \<Rightarrow> Inl e
              | None \<Rightarrow> Inr store))"

text \<open>\<open>__init__\<close>\<close>

definition init :: "int \<Rightarrow> string \<Rightarrow> string \<Rightarrow> world \<Rightarrow> exn + analyzer" where
  "init csize mdl file w =
     (case load_prompts file w of
        Inl e \<Rightarrow> Inl e
      | Inr ps \<Rightarrow> Inr \<lparr>chunk_size = csize, model = mdl, prompt_file = file, prompts = ps\<rparr>)"

subsection \<open>\<open>_read_urls_from_file\<close>\<close>

text \<open>\<open>f.readlines()\<close>: each line keeps its \<open>\n\<close>.\<close>

fun lines_keepends :: "string \<Rightarrow> string list" where
  "lines_keepends [] = []"
| "lines_keepends (c # cs) =
     (if c = newline then [c] # lines_keepends cs
      else (case lines_keepends cs of
              [] \<Rightarrow> [[c]]
            | l # ls \<Rightarrow> (c # l) # ls))"

definition readlines :: "string \<Rightarrow> string list" where
  "readlines content = lines_keepends (universal_newlines content)"

fun collect_urls :: "string list \<Rightarrow> string list \<Rightarrow> string list" where
  "collect_urls [] urls = urls"
| "collect_urls (line # lines) urls =
     (let line = strip line
      in if line \<noteq> [] \<and> \<not> startswith line ''#''
         then (if startswith line ''http'' then collect_urls lines (urls @ [line])
               else collect_urls lines urls)
         else collect_urls lines urls)"

definition read_urls_from_file :: "string \<Rightarrow> world \<Rightarrow> exn + string list" where
  "read_urls_from_file url_file w =
     (case map_of (files w) url_file of
        None \<Rightarrow> Inl (FileNotFoundError (''URL file '' @ [CHR 0x27] @ url_file @ [CHR 0x27]
                  @ '' not found. Please ensure the file exists in the current directory.''))
      | Some content \<Rightarrow>
          (let urls = collect_urls (readlines content) []
           in if urls = []
              then Inl (ValueError (''No valid URLs found in '' @ url_file
                     @ ''. Please add URLs (one per line) to the file.''))
              else Inr urls))"

subsection \<open>\<open>_extract_company_name_from_url\<close>\<close>

text \<open>
  \<open>urlparse(url).netloc\<close>, after the algorithm of \<open>urllib.parse.urlsplit\<close>: a scheme is
  cut off at the first \<open>:\<close> when the text before it starts with a letter and has scheme
  characters only; the network location is what follows \<open>//\<close> up to the first of
  \<open>/\<close>, \<open>?\<close> and \<open>#\<close>; an unmatched square bracket in it raises \<open>ValueError\<close>. The
  removal of control characters and the validation of a bracketed host, which later
  versions of the library add, are not part of it.
\<close>

definition isalpha_ascii :: "char \<Rightarrow> bool" where
  "isalpha_ascii c = (islower_ascii c \<or> isupper_ascii c)"

definition scheme_char :: "char \<Rightarrow> bool" where
  "scheme_char c = (isalnum_ascii c \<or> c \<in> set ''+-.'')"

definition urlparse_netloc :: "string \<Rightarrow> exn + string" where
  "urlparse_netloc url =
     (let scheme = takeWhile (\<lambda>c. c \<noteq> CHR '':'') url;
          url = (if CHR '':'' \<in> set url \<and> scheme \<noteq> [] \<and> isalpha_ascii (hd url)
                    \<and> list_all scheme_char scheme
                 then tl (dropWhile (\<lambda>c. c \<noteq> CHR '':'') url)
                 else url)
      in if take 2 url = ''//''
         then (let netloc = takeWhile (\<lambda>c. c \<notin> set ''/?#'') (drop 2 url)
               in if (CHR ''['' \<in> set netloc \<and> CHR '']'' \<notin> set netloc)
                     \<or> (CHR '']'' \<in> set netloc \<and> CHR ''['' \<notin> set netloc)
                  then Inl (ValueError ''Invalid IPv6 URL'')
                  else Inr netloc)
         else Inr [])"

text \<open>\<open>re.sub(r'^(www\.|assets\.|assets-dam\.)', '', domain)\<close>: anchored at the start.\<close>

definition remove_prefix :: "string \<Rightarrow> string" where
  "remove_prefix domain =
     (if startswith domain ''www.'' then drop 4 domain
      else if startswith domain ''assets.'' then drop 7 domain
      else if startswith domain ''assets-dam.'' then drop 11 domain
      else domain)"

definition company_mapping :: "(string \<times> string) list" where
  "company_mapping =
     [(''novartis'', ''novartis''), (''gsk'', ''gsk''), (''takeda'', ''takeda''),
      (''pfizer'', ''pfizer''), (''roche'', ''roche''), (''jnj'', ''johnson_and_johnson''),
      (''merck'', ''merck''), (''abbvie'', ''abbvie''), (''amgen'', ''amgen''),
      (''gilead'', ''gilead'')]"

text \<open>The loop \<open>for key, value in company_mapping.items()\<close> with its early return.\<close>

fun lookup_company :: "(string \<times> string) list \<Rightarrow> string \<Rightarrow> string option" where
  "lookup_company [] company_name = None"
| "lookup_company ((key, value) # rest) company_name =
     (if contains company_name key then Some value else lookup_company rest company_name)"

text \<open>The result is \<open>None\<close> where the source returns \<open>None\<close> from its \<open>except\<close> branch.\<close>

definition extract_company_name_from_url :: "string \<Rightarrow> string option" where
  "extract_company_name_from_url url =
     (case urlparse_netloc url of
        Inl e \<Rightarrow> None
      | Inr netloc \<Rightarrow>
          (let domain = lower netloc;
               domain = remove_prefix domain;
               domain_parts = split_on CHR ''.'' domain
           in if length domain_parts \<ge> 2
              then (let company_name = hd domain_parts
                    in case lookup_company company_mapping company_name of
                         Some value \<Rightarrow> Some value
                       | None \<Rightarrow> Some (lower (re_sub [(NonAlnum, One)] ''_'' company_name)))
              else Some (lower (re_sub [(NonAlnum, One)] ''_'' (hd (split_on CHR ''.'' domain))))))"

text \<open>The choice of the file name in \<open>analyze_single_report\<close>.\<close>

definition output_filename :: "string \<Rightarrow> int \<Rightarrow> string" where
  "output_filename pdf_url url_index =
     (case extract_company_name_from_url pdf_url of
        None \<Rightarrow> ''report_'' @ str_int url_index @ ''_analysis.txt''
      | Some company_name \<Rightarrow>
          if company_name \<noteq> [] then company_name @ ''_analysis.txt''
          else ''report_'' @ str_int url_index @ ''_analysis.txt'')"

subsection \<open>\<open>download_pdf\<close>\<close>

definition download_pdf :: "outside \<Rightarrow> string \<Rightarrow> world \<Rightarrow> (exn + string) \<times> world" where
  "download_pdf E url w =
     (case requests_get E (clock w) url of
        Inl e \<Rightarrow> (Inl e, tick w)
      | Inr content \<Rightarrow>
          (case tempfile_create E (Suc (clock w)) of
             Inl e \<Rightarrow> (Inl e, tick (tick w))
           | Inr name \<Rightarrow>
               (case write_error E (Suc (Suc (clock w))) name of
                  Some e \<Rightarrow>
                    (Inl e, (tick (tick (tick w)))\<lparr>files := AList.update name [] (files w)\<rparr>)
                | None \<Rightarrow>
                    (Inr name,
                     (tick (tick (tick w)))\<lparr>files := AList.update name content (files w)\<rparr>))))"

subsection \<open>\<open>_clean_text\<close> and \<open>extract_text_from_pdf\<close>\<close>

text \<open>The three patterns of \<open>_clean_text\<close>: \<open>\s+\<close>, \<open>\n\s*\d+\s*\n\<close> and \<open>\n\s*\n\s*\n\<close>.\<close>

definition whitespace_run :: regex where
  "whitespace_run = [(Space, Plus)]"

definition page_number_line :: regex where
  "page_number_line =
     [(Lit newline, One), (Space, Star), (Digit, Plus), (Space, Star), (Lit newline, One)]"

definition blank_lines :: regex where
  "blank_lines =
     [(Lit newline, One), (Space, Star), (Lit newline, One), (Space, Star), (Lit newline, One)]"

definition clean_text :: "string \<Rightarrow> string" where
  "clean_text text =
     (if text = [] then []
      else (let text = re_sub whitespace_run '' '' text;
                text = re_sub page_number_line [newline] text;
                text = re_sub blank_lines [newline, newline] text
            in strip text))"

definition extract_text_from_pdf :: "outside \<Rightarrow> string \<Rightarrow> world \<Rightarrow> (exn + string) \<times> world" where
  "extract_text_from_pdf E pdf_path w =
     (case map_of (files w) pdf_path of
        None \<Rightarrow> (Inl (FileNotFoundError pdf_path), w)
      | Some content \<Rightarrow>
          (case pdf_pages E (clock w) content of
             Inl e \<Rightarrow> (Inl e, tick w)
           | Inr pages \<Rightarrow>
               (Inr (join [newline, newline]
                       (map clean_text (filter (\<lambda>page_text. page_text \<noteq> []) pages))),
                tick w)))"

subsection \<open>\<open>chunk_text\<close>\<close>

text \<open>
  The loop of \<open>chunk_text\<close> over the words, on the state
  \<open>(chunks, current_chunk, current_word_count)\<close>.
\<close>

fun chunk_loop ::
  "int \<Rightarrow> string list \<Rightarrow> string list \<times> string list \<times> int
     \<Rightarrow> string list \<times> string list \<times> int" where
  "chunk_loop limit [] st = st"
| "chunk_loop limit (word # words) (chunks, current_chunk, current_word_count) =
     (let current_chunk = current_chunk @ [word];
          current_word_count = current_word_count + 1
      in if current_word_count \<ge> limit
         then chunk_loop limit words (chunks @ [join '' '' current_chunk], [], 0)
         else chunk_loop limit words (chunks, current_chunk, current_word_count))"

definition chunk_text :: "analyzer \<Rightarrow> string \<Rightarrow> string list" where
  "chunk_text self text =
     (let words = split text;
          (chunks, current_chunk, current_word_count) =
             chunk_loop (chunk_size self) words ([], [], 0)
      in if current_chunk \<noteq> [] then chunks @ [join '' '' current_chunk] else chunks)"

subsection \<open>\<open>analyze_chunk\<close> and \<open>combine_summaries\<close>\<close>

definition chunk_system_message :: string where
  "chunk_system_message =
     ''You are a financial analyst expert at summarizing business reports.''"

definition summary_system_message :: string where
  "summary_system_message =
     ''You are a senior financial analyst creating executive summaries.''"

text \<open>
  A summary is what the model returned, a string or \<open>None\<close>, or the error string that
  stands for a call that raised.
\<close>

definition analyze_chunk ::
  "analyzer \<Rightarrow> outside \<Rightarrow> string \<Rightarrow> int \<Rightarrow> int \<Rightarrow> world
     \<Rightarrow> (exn + string option) \<times> world" where
  "analyze_chunk self E chunk chunk_number total_chunks w =
     (let prompt_template = dict_get (prompts self) ''CHUNK_ANALYSIS_PROMPT'' []
      in if prompt_template = []
         then (Inl (ValueError ''CHUNK_ANALYSIS_PROMPT not found in prompts file''), w)
         else (case str_format E prompt_template
                      [(''chunk'', PyStr chunk), (''chunk_number'', PyInt chunk_number),
                       (''total_chunks'', PyInt total_chunks)] of
                 Inl e \<Rightarrow> (Inl e, w)
               | Inr prompt \<Rightarrow>
                   (case chat_completion E (clock w) (model self) chunk_system_message prompt of
                      Inr summary \<Rightarrow> (Inr summary, tick w)
                    | Inl e \<Rightarrow>
                        (Inr (Some (''Error analyzing chunk '' @ str_int chunk_number @ '': ''
                                      @ message e)),
                         tick w))))"

text \<open>
  The items of a list given to \<open>sep.join\<close>: the first item that is \<open>None\<close> raises
  \<open>TypeError\<close>.
\<close>

fun str_items :: "nat \<Rightarrow> string option list \<Rightarrow> exn + string list" where
  "str_items i [] = Inr []"
| "str_items i (None # xs) =
     Inl (TypeError (''sequence item '' @ str_nat i
            @ '': expected str instance, NoneType found''))"
| "str_items i (Some x # xs) =
     (case str_items (Suc i) xs of
        Inl e \<Rightarrow> Inl e
      | Inr ys \<Rightarrow> Inr (x # ys))"

definition combine_summaries ::
  "analyzer \<Rightarrow> outside \<Rightarrow> string option list \<Rightarrow> world
     \<Rightarrow> (exn + string option) \<times> world" where
  "combine_summaries self E chunk_summaries w =
     (case str_items 0 chunk_summaries of
        Inl e \<Rightarrow> (Inl e, w)
      | Inr items \<Rightarrow>
     (let combined_text = join [newline, newline] items;
          prompt_template = dict_get (prompts self) ''SUMMARY_COMBINATION_PROMPT'' []
      in if prompt_template = []
         then (Inl (ValueError ''SUMMARY_COMBINATION_PROMPT not found in prompts file''), w)
         else (case str_format E prompt_template [(''combined_text'', PyStr combined_text)] of
                 Inl e \<Rightarrow> (Inl e, w)
               | Inr final_prompt \<Rightarrow>
                   (case chat_completion E (clock w) (model self) summary_system_message
                           final_prompt of
                      Inr final_summary \<Rightarrow> (Inr final_summary, tick w)
                    | Inl e \<Rightarrow>
                        (Inr (Some (''Error generating final summary: '' @ message e)),
                         tick w)))))"

subsection \<open>\<open>analyze_single_report\<close>\<close>

text \<open>The loop \<open>for i, chunk in enumerate(chunks, 1)\<close>.\<close>

fun analyze_chunks ::
  "analyzer \<Rightarrow> outside \<Rightarrow> string list \<Rightarrow> int \<Rightarrow> int \<Rightarrow> string option list \<Rightarrow> world
     \<Rightarrow> (exn + string option list) \<times> world" where
  "analyze_chunks self E [] i total_chunks chunk_summaries w = (Inr chunk_summaries, w)"
| "analyze_chunks self E (chunk # chunks) i total_chunks chunk_summaries w =
     (case analyze_chunk self E chunk i total_chunks w of
        (Inl e, w') \<Rightarrow> (Inl e, w')
      | (Inr summary, w') \<Rightarrow>
          analyze_chunks self E chunks (i + 1) total_chunks (chunk_summaries @ [summary]) w')"

text \<open>\<open>os.path.join(output_dir, filename)\<close> on a POSIX system.\<close>

definition path_join :: "string \<Rightarrow> string \<Rightarrow> string" where
  "path_join a b =
     (if startswith b ''/'' then b
      else if a = [] \<or> last a = CHR ''/'' then a @ b
      else a @ ''/'' @ b)"

definition report_text :: "string \<Rightarrow> string \<Rightarrow> string" where
  "report_text pdf_url final_summary =
     ''Financial Report Analysis'' @ [newline]
     @ ''Source: '' @ pdf_url @ [newline]
     @ replicate 80 CHR ''='' @ [newline, newline]
     @ final_summary"

text \<open>
  The \<open>try\<close> block: its outcome (the exception raised, or the value returned), the value
  of \<open>pdf_path\<close> when it is left, and the world. When the final summary is \<open>None\<close>,
  \<open>f.write(final_summary)\<close> raises \<open>TypeError\<close> after the three lines of the header have
  been written.
\<close>

definition try_block ::
  "analyzer \<Rightarrow> outside \<Rightarrow> string \<Rightarrow> string \<Rightarrow> int \<Rightarrow> world
     \<Rightarrow> (exn + bool) \<times> string option \<times> world" where
  "try_block self E pdf_url output_dir url_index w =
     (case download_pdf E pdf_url w of
        (Inl e, w1) \<Rightarrow> (Inl e, None, w1)
      | (Inr pdf_path, w1) \<Rightarrow>
     (case extract_text_from_pdf E pdf_path w1 of
        (Inl e, w2) \<Rightarrow> (Inl e, Some pdf_path, w2)
      | (Inr text, w2) \<Rightarrow>
     if strip text = []
     then (Inl (ValueError ''No text could be extracted from the PDF''), Some pdf_path, w2)
     else (let chunks = chunk_text self text
      in if chunks = []
         then (Inl (ValueError ''No text chunks created''), Some pdf_path, w2)
         else
     (case analyze_chunks self E chunks 1 (int (length chunks)) [] w2 of
        (Inl e, w3) \<Rightarrow> (Inl e, Some pdf_path, w3)
      | (Inr chunk_summaries, w3) \<Rightarrow>
     (case combine_summaries self E chunk_summaries w3 of
        (Inl e, w4) \<Rightarrow> (Inl e, Some pdf_path, w4)
      | (Inr final_summary, w4) \<Rightarrow>
          (let filename = output_filename pdf_url url_index;
               output_path = path_join output_dir filename
           in case write_error E (clock w4) output_path of
                Some e \<Rightarrow> (Inl e, Some pdf_path, tick w4)
              | None \<Rightarrow>
                  (case final_summary of
                     None \<Rightarrow>
                       (Inl (TypeError ''write() argument must be str, not None''),
                        Some pdf_path,
                        (tick w4)\<lparr>files := AList.update output_path
                                             (report_text pdf_url []) (files w4)\<rparr>)
                   | Some summary \<Rightarrow>
                       (Inr True, Some pdf_path,
                        (tick w4)\<lparr>files := AList.update output_path
                                             (report_text pdf_url summary) (files w4)\<rparr>))))))))"

text \<open>
  \<open>except Exception\<close> turns an exception into \<open>False\<close>; \<open>finally\<close> deletes the file
  that \<open>pdf_path\<close> names, if it is set and the file exists.
\<close>

definition analyze_single_report ::
  "analyzer \<Rightarrow> outside \<Rightarrow> string \<Rightarrow> string \<Rightarrow> int \<Rightarrow> world \<Rightarrow> bool \<times> world" where
  "analyze_single_report self E pdf_url output_dir url_index w =
     (case try_block self E pdf_url output_dir url_index w of
        (outcome, pdf_path, w') \<Rightarrow>
          (let result = (case outcome of Inl e \<Rightarrow> False | Inr b \<Rightarrow> b);
               w'' = (case pdf_path of
                        None \<Rightarrow> w'
                      | Some p \<Rightarrow>
                          if p \<noteq> [] \<and> map_of (files w') p \<noteq> None
                          then w'\<lparr>files := AList.delete p (files w')\<rparr>
                          else w')
           in (result, w'')))"

subsection \<open>\<open>analyze_all_reports\<close>\<close>

text \<open>
  The loop \<open>for i, url in enumerate(urls, 1)\<close>. The source calls
  \<open>self.analyze_single_report\<close>; the loop takes it as the parameter \<open>run\<close>, with the
  state it works on.
\<close>

fun analyze_all_loop ::
  "(string \<Rightarrow> string \<Rightarrow> int \<Rightarrow> 'w \<Rightarrow> bool \<times> 'w) \<Rightarrow> string \<Rightarrow> int \<Rightarrow> string list
     \<Rightarrow> (string \<times> bool) list \<Rightarrow> 'w \<Rightarrow> (string \<times> bool) list \<times> 'w" where
  "analyze_all_loop run output_dir i [] results w = (results, w)"
| "analyze_all_loop run output_dir i (url # urls) results w =
     (case run url output_dir i w of
        (success, w') \<Rightarrow>
          analyze_all_loop run output_dir (i + 1) urls (AList.update url success results) w')"

definition analyze_all_reports ::
  "analyzer \<Rightarrow> outside \<Rightarrow> string \<Rightarrow> string \<Rightarrow> world
     \<Rightarrow> (exn + (string \<times> bool) list) \<times> world" where
  "analyze_all_reports self E url_file output_dir w =
     (case read_urls_from_file url_file w of
        Inl e \<Rightarrow> (Inl e, w)
      | Inr urls \<Rightarrow>
          (case analyze_all_loop (analyze_single_report self E) output_dir 1 urls [] w of
             (results, w') \<Rightarrow> (Inr results, w')))"



section \<open>Notions used in the statements and proofs\<close>

text \<open>A word: not empty, and without whitespace.\<close>

definition word :: "string \<Rightarrow> bool" where
  "word w = (w \<noteq> [] \<and> (\<forall>x\<in>set w. \<not> isspace x))"

text \<open>A list cut into consecutive groups of \<open>n\<close> elements, the last one possibly shorter.\<close>

function groups :: "nat \<Rightarrow> 'a list \<Rightarrow> 'a list list" where
  "groups n xs = (if n = 0 \<or> xs = [] then [] else take n xs # groups n (drop n xs))"
  by pat_completeness auto
termination
  by (relation "measure (\<lambda>(n, xs). length xs)") auto

declare groups.simps [simp del]

text \<open>The last step of \<open>chunk_text\<close>, on the final state of its loop.\<close>

fun finish_chunks :: "string list \<times> string list \<times> int \<Rightarrow> string list" where
  "finish_chunks (chunks, current_chunk, current_word_count) =
     (if current_chunk \<noteq> [] then chunks @ [join '' '' current_chunk] else chunks)"

text \<open>\<open>s.rstrip()\<close>: the second half of \<open>strip\<close>.\<close>

definition rstrip :: "string \<Rightarrow> string" where
  "rstrip s = rev (dropWhile isspace (rev s))"

text \<open>
  A formatter for the examples: it copies the template and puts the value of an argument
  in the place of each field \<open>{name}\<close>, raising \<open>KeyError\<close> for a name that is no argument
  and \<open>ValueError\<close> for a field that is not closed.
\<close>

fun pyval_str :: "pyval \<Rightarrow> string" where
  "pyval_str (PyStr s) = s"
| "pyval_str (PyInt i) = str_int i"

fun format_fields :: "(string \<times> pyval) list \<Rightarrow> string option \<Rightarrow> string \<Rightarrow> exn + string" where
  "format_fields args None [] = Inr []"
| "format_fields args (Some name) [] = Inl (ValueError ''expected } before end of string'')"
| "format_fields args None (c # cs) =
     (if c = CHR ''{'' then format_fields args (Some []) cs
      else (case format_fields args None cs of
              Inl e \<Rightarrow> Inl e
            | Inr s \<Rightarrow> Inr (c # s)))"
| "format_fields args (Some name) (c # cs) =
     (if c = CHR ''}''
      then (case map_of args name of
              None \<Rightarrow> Inl (KeyError name)
            | Some v \<Rightarrow>
                (case format_fields args None cs of
                   Inl e \<Rightarrow> Inl e
                 | Inr s \<Rightarrow> Inr (pyval_str v @ s)))
      else format_fields args (Some (name @ [c])) cs)"

text \<open>
  An analyzer and an outside world for the examples: two non-empty templates, a server
  that refuses one URL, a PDF of three pages of which one is empty, a model whose every
  call raises, and a disk that takes every write.
\<close>

definition example_analyzer :: analyzer where
  "example_analyzer =
     \<lparr>chunk_size = 2500, model = ''gpt-4o-mini'', prompt_file = ''prompts.txt'',
      prompts = [(''CHUNK_ANALYSIS_PROMPT'', ''Summarize {chunk}''),
                 (''SUMMARY_COMBINATION_PROMPT'', ''Combine {combined_text}'')]\<rparr>"

definition example_outside :: outside where
  "example_outside =
     \<lparr>requests_get = (\<lambda>t url. if url = ''http://b.example.com/b.pdf''
                                then Inl (RequestException ''404 Client Error'')
                                else Inr ''%PDF-1.7''),
      tempfile_create = (\<lambda>t. Inr ''/tmp/tmp1.pdf''),
      write_error = (\<lambda>t path. None),
      pdf_pages = (\<lambda>t content. Inr [''Revenue  grew.'', [], ''Costs fell.'']),
      chat_completion = (\<lambda>t mdl system user. Inl (OtherError ''rate limit'')),
      str_format = (\<lambda>template args. format_fields args None template)\<rparr>"

definition empty_world :: world where
  "empty_world = \<lparr>clock = 0, files = []\<rparr>"

text \<open>
  A prompt file whose first required section has no text, and the analyzer that
  \<open>__init__\<close> builds from it.
\<close>

definition blank_template_world :: world where
  "blank_template_world =
     \<lparr>clock = 0,
      files = [(''prompts.txt'', ''[CHUNK_ANALYSIS_PROMPT][SUMMARY_COMBINATION_PROMPT]x'')]\<rparr>"

definition blank_template_analyzer :: analyzer where
  "blank_template_analyzer =
     \<lparr>chunk_size = 2500, model = ''gpt-4o-mini'', prompt_file = ''prompts.txt'',
      prompts = [(''CHUNK_ANALYSIS_PROMPT'', []), (''SUMMARY_COMBINATION_PROMPT'', ''x'')]\<rparr>"

text \<open>The text extracted from the PDF of \<open>example_outside\<close>.\<close>

definition example_text :: string where
  "example_text = ''Revenue grew.'' @ [newline, newline] @ ''Costs fell.''"

text \<open>
  A stand-in for \<open>analyze_single_report\<close> in the loop of \<open>analyze_all_reports\<close>: its state
  is the list of the calls made, each with its URL and index, and \<open>outcome\<close> decides what
  a call returns.
\<close>

definition traced ::
  "(string \<Rightarrow> int \<Rightarrow> bool) \<Rightarrow> string \<Rightarrow> string \<Rightarrow> int \<Rightarrow> (string \<times> int) list
     \<Rightarrow> bool \<times> (string \<times> int) list" where
  "traced outcome url output_dir i calls = (outcome url i, calls @ [(url, i)])"

text \<open>
  The results of running \<open>run\<close> on the URLs one after the other, each run starting in the
  state the previous one left, whatever the results are.
\<close>

fun outcomes ::
  "(string \<Rightarrow> string \<Rightarrow> int \<Rightarrow> 'w \<Rightarrow> bool \<times> 'w) \<Rightarrow> string \<Rightarrow> int \<Rightarrow> string list \<Rightarrow> 'w
     \<Rightarrow> bool list" where
  "outcomes run output_dir i [] w = []"
| "outcomes run output_dir i (url # urls) w =
     (case run url output_dir i w of
        (success, w') \<Rightarrow> success # outcomes run output_dir (i + 1) urls w')"

text \<open>A world whose URL file has a comment, three URLs, an empty line and a line that is no URL.\<close>

definition example_batch_world :: world where
  "example_batch_world =
     \<lparr>clock = 0,
      files = [(''urls.txt'',
                ''# reports'' @ [newline]
                @ ''https://www.pfizer.com/report.pdf'' @ [newline]
                @ ''http://b.example.com/b.pdf'' @ [CHR 0x0D, newline]
                @ [newline]
                @ ''ftp://x'' @ [newline]
                @ ''  https://example.com/x.pdf  '')]\<rparr>"

text \<open>
  The outside world of the examples with a model that answers every call with a response
  that has no text, and the analyzer of the examples with a chunk template that names a
  field the program does not pass.
\<close>

definition silent_outside :: outside where
  "silent_outside = example_outside\<lparr>chat_completion := (\<lambda>t mdl system user. Inr None)\<rparr>"

definition unknown_field_analyzer :: analyzer where
  "unknown_field_analyzer =
     example_analyzer\<lparr>prompts := [(''CHUNK_ANALYSIS_PROMPT'', ''Summarize {text}''),
                                  (''SUMMARY_COMBINATION_PROMPT'', ''Combine {combined_text}'')]\<rparr>"

section \<open>Splitting and joining\<close>
lemma isspace_blank: "isspace (CHR '' '')"
  by (simp add: isspace_def)

lemma split_Nil: "split [] = []"
  by (simp add: split.simps)

lemma split_unfold_Nil:
  assumes "dropWhile isspace s = []"
  shows "split s = []"
proof -
  have "split s = (case dropWhile isspace s of [] \<Rightarrow> []
      | c # cs \<Rightarrow> takeWhile (\<lambda>x. \<not> isspace x) (c # cs)
                   # split (dropWhile (\<lambda>x. \<not> isspace x) (c # cs)))"
    by (rule split.simps)
  then show ?thesis by (simp only: assms list.case)
qed

lemma split_unfold_Cons:
  assumes "dropWhile isspace s = c # cs"
  shows "split s = takeWhile (\<lambda>x. \<not> isspace x) (c # cs)
                     # split (dropWhile (\<lambda>x. \<not> isspace x) (c # cs))"
proof -
  have "split s = (case dropWhile isspace s of [] \<Rightarrow> []
      | c # cs \<Rightarrow> takeWhile (\<lambda>x. \<not> isspace x) (c # cs)
                   # split (dropWhile (\<lambda>x. \<not> isspace x) (c # cs)))"
    by (rule split.simps)
  then show ?thesis by (simp only: assms list.case)
qed

lemma split_space: "isspace c \<Longrightarrow> split (c # s) = split s"
proof (cases "dropWhile isspace s")
  case Nil
  assume "isspace c"
  then have "dropWhile isspace (c # s) = []" using Nil by simp
  then show ?thesis using Nil by (simp only: split_unfold_Nil)
next
  case (Cons d ds)
  assume "isspace c"
  then have "dropWhile isspace (c # s) = d # ds" using Cons by simp
  then show ?thesis using Cons by (simp only: split_unfold_Cons)
qed

lemma split_word:
  assumes "w \<noteq> []" and "\<forall>x\<in>set w. \<not> isspace x" and "r = [] \<or> isspace (hd r)"
  shows "split (w @ r) = w # split r"
proof -
  obtain c cs where w: "w @ r = c # cs" using assms(1) by (cases w) auto
  have "dropWhile isspace (w @ r) = w @ r"
    using assms(1,2) by (cases w) auto
  then have d: "dropWhile isspace (w @ r) = c # cs" using w by simp
  have t: "takeWhile (\<lambda>x. \<not> isspace x) (w @ r) = w"
  proof (cases r)
    case Nil then show ?thesis using assms(2) by simp
  next
    case (Cons a as)
    then have "isspace a" using assms(3) by simp
    then show ?thesis using assms(2) Cons by simp
  qed
  have e: "dropWhile (\<lambda>x. \<not> isspace x) (w @ r) = r"
  proof (cases r)
    case Nil then show ?thesis using assms(2) by simp
  next
    case (Cons a as)
    then have "isspace a" using assms(3) by simp
    then show ?thesis using assms(2) Cons by simp
  qed
  have "split (w @ r) = takeWhile (\<lambda>x. \<not> isspace x) (c # cs)
                     # split (dropWhile (\<lambda>x. \<not> isspace x) (c # cs))"
    using d by (rule split_unfold_Cons)
  then show ?thesis using t e by (simp only: w [symmetric])
qed

lemma split_words: "\<forall>w\<in>set (split s). word w"
proof (induction s rule: split.induct)
  case (1 s)
  show ?case
  proof (cases "dropWhile isspace s")
    case Nil
    then show ?thesis by (simp add: split_unfold_Nil)
  next
    case (Cons c cs)
    have nc: "\<not> isspace c" using Cons hd_dropWhile [of isspace s] by force
    have "word (takeWhile (\<lambda>x. \<not> isspace x) (c # cs))"
      using nc by (auto simp: word_def dest: set_takeWhileD)
    moreover have "\<forall>w\<in>set (split (dropWhile (\<lambda>x. \<not> isspace x) (c # cs))). word w"
      using 1 [OF Cons] .
    ultimately show ?thesis
      by (simp only: split_unfold_Cons [OF Cons]) simp
  qed
qed

lemma split_join: "\<forall>w\<in>set ws. word w \<Longrightarrow> split (join '' '' ws) = ws"
proof (induction "'' ''" ws rule: join.induct)
  case 1
  then show ?case by (simp add: split_Nil)
next
  case (2 x)
  then show ?case using split_word [of x "[]"] by (simp add: word_def split_Nil)
next
  case (3 x y ys)
  have "split (x @ '' '' @ join '' '' (y # ys)) = x # split ('' '' @ join '' '' (y # ys))"
    using 3(2) by (intro split_word) (auto simp: word_def isspace_blank)
  also have "split ('' '' @ join '' '' (y # ys)) = split (join '' '' (y # ys))"
    by (simp add: split_space isspace_blank)
  also have "\<dots> = y # ys" using 3 by simp
  finally show ?case by simp
qed


lemma groups_Nil: "groups n [] = []"
  by (simp add: groups.simps)

lemma groups_step: "0 < n \<Longrightarrow> xs \<noteq> [] \<Longrightarrow> groups n xs = take n xs # groups n (drop n xs)"
  by (subst groups.simps) simp

lemma concat_groups: "0 < n \<Longrightarrow> concat (groups n xs) = xs"
proof (induction n xs rule: groups.induct)
  case (1 n xs)
  then show ?case
    by (cases "xs = []") (simp_all add: groups_Nil groups_step)
qed

lemma ceil_step:
  fixes l n :: nat
  assumes "0 < n" and "0 < l"
  shows "(l + n - 1) div n = Suc ((l - n + n - 1) div n)"
proof (cases "n \<le> l")
  case True
  then have a: "l + n - 1 = (l - 1) + n" and b: "l - n + n - 1 = l - 1"
    using assms by simp_all
  have "(l - 1 + n) div n = (l - 1) div n + 1"
    by (rule div_add_self2) (use assms in simp)
  then show ?thesis by (simp only: a b Suc_eq_plus1)
next
  case False
  then have "l - n = 0" by simp
  have "(l + n - 1) div n = 1"
  proof (rule div_nat_eqI)
    show "n * 1 \<le> l + n - 1" using assms by simp
    show "l + n - 1 < n * Suc 1" using False assms by simp
  qed
  then show ?thesis using False assms by simp
qed

lemma length_groups: "0 < n \<Longrightarrow> length (groups n xs) = (length xs + n - 1) div n"
proof (induction n xs rule: groups.induct)
  case (1 n xs)
  show ?case
  proof (cases "xs = []")
    case True
    then show ?thesis using 1(2) by (simp add: groups_Nil)
  next
    case False
    then have "length (groups n xs) = Suc (length (groups n (drop n xs)))"
      using 1(2) by (simp add: groups_step)
    also have "\<dots> = Suc ((length xs - n + n - 1) div n)"
      using 1 False by simp
    also have "\<dots> = (length xs + n - 1) div n"
      using ceil_step [of n "length xs"] 1(2) False by simp
    finally show ?thesis .
  qed
qed

lemma groups_sizes:
  "0 < n \<Longrightarrow> i < length (groups n xs) \<Longrightarrow>
     (if Suc i < length (groups n xs) then length (groups n xs ! i) = n
      else 1 \<le> length (groups n xs ! i) \<and> length (groups n xs ! i) \<le> n)"
proof (induction n xs arbitrary: i rule: groups.induct)
  case (1 n xs)
  have ne: "xs \<noteq> []" using 1(3) by (auto simp: groups_Nil)
  have st: "groups n xs = take n xs # groups n (drop n xs)"
    using 1(2) ne by (rule groups_step)
  show ?case
  proof (cases i)
    case 0
    show ?thesis
    proof (cases "groups n (drop n xs) = []")
      case True
      then show ?thesis using 0 st ne 1(2) by (cases xs) auto
    next
      case False
      then have "drop n xs \<noteq> []" by (auto simp: groups_Nil)
      then have "n \<le> length xs" by simp
      then show ?thesis using 0 st False by simp
    qed
  next
    case (Suc j)
    then have j: "j < length (groups n (drop n xs))" using 1(3) st by simp
    have "if Suc j < length (groups n (drop n xs))
          then length (groups n (drop n xs) ! j) = n
          else 1 \<le> length (groups n (drop n xs) ! j) \<and> length (groups n (drop n xs) ! j) \<le> n"
      using 1(1) [of j] 1(2) ne j by simp
    then show ?thesis using Suc st by (auto split: if_splits)
  qed
qed

lemma chunk_loop_groups:
  "0 < n \<Longrightarrow> length cur < n \<Longrightarrow>
   finish_chunks (chunk_loop (int n) ws (chunks, cur, int (length cur)))
     = chunks @ map (join '' '') (groups n (cur @ ws))"
proof (induction ws arbitrary: chunks cur)
  case Nil
  show ?case
  proof (cases "cur = []")
    case True then show ?thesis by (simp add: groups_Nil)
  next
    case False
    then have "groups n cur = [cur]" using Nil by (simp add: groups_step groups_Nil)
    then show ?thesis using False by simp
  qed
next
  case (Cons w ws)
  show ?case
  proof (cases "Suc (length cur) = n")
    case True
    have n: "n = Suc (length cur)" using True by simp
    have "groups n (cur @ w # ws) = (cur @ [w]) # groups n ws"
      unfolding n by (simp add: groups_step)
    moreover have "finish_chunks (chunk_loop (int n) ws (chunks @ [join '' '' (cur @ [w])], [], int (length ([]::string list))))
        = (chunks @ [join '' '' (cur @ [w])]) @ map (join '' '') (groups n ([] @ ws))"
      using Cons(2) by (intro Cons.IH) simp_all
    ultimately show ?thesis using True by (simp add: Let_def)
  next
    case False
    then have lt: "length (cur @ [w]) < n" using Cons(3) by simp
    have "finish_chunks (chunk_loop (int n) ws (chunks, cur @ [w], int (length (cur @ [w]))))
        = chunks @ map (join '' '') (groups n ((cur @ [w]) @ ws))"
      using Cons(2) lt by (intro Cons.IH)
    then show ?thesis using False lt by (simp add: Let_def add.commute)
  qed
qed

lemma chunk_text_groups:
  assumes "0 < chunk_size self"
  shows "chunk_text self text = map (join '' '') (groups (nat (chunk_size self)) (split text))"
proof -
  have "finish_chunks (chunk_loop (int (nat (chunk_size self))) (split text) ([], [], int (length ([]::string list))))
      = [] @ map (join '' '') (groups (nat (chunk_size self)) ([] @ split text))"
    using assms by (intro chunk_loop_groups) simp_all
  then show ?thesis using assms
    by (cases "chunk_loop (chunk_size self) (split text) ([], [], 0)")
       (auto simp: chunk_text_def)
qed


lemma groups_subset: "0 < n \<Longrightarrow> g \<in> set (groups n xs) \<Longrightarrow> set g \<subseteq> set xs"
proof -
  assume n: "0 < n" and g: "g \<in> set (groups n xs)"
  have "set g \<subseteq> set (concat (groups n xs))" using g by auto
  then show ?thesis using n by (simp add: concat_groups)
qed

lemma map_split_chunk_text:
  assumes "0 < chunk_size self"
  shows "map split (chunk_text self text) = groups (nat (chunk_size self)) (split text)"
proof -
  let ?n = "nat (chunk_size self)"
  have n: "0 < ?n" using assms by simp
  have "split (join '' '' g) = g" if "g \<in> set (groups ?n (split text))" for g
  proof (rule split_join)
    show "\<forall>w\<in>set g. word w"
      using groups_subset [OF n that] split_words [of "text"] by auto
  qed
  then have "map (\<lambda>g. split (join '' '' g)) (groups ?n (split text)) = groups ?n (split text)"
    by (simp add: map_idI)
  then show ?thesis using assms by (simp add: chunk_text_groups o_def)
qed

text \<open>
  C1. For a positive chunk size \<open>C\<close> and a text of \<open>W\<close> words, \<open>chunk_text\<close> returns
  \<open>ceil(W/C)\<close> chunks (none when \<open>W = 0\<close>); every chunk but the last has exactly \<open>C\<close>
  words, the last has between 1 and \<open>C\<close>; the words of the chunks, in order, are the
  words of the text.
\<close>

theorem chunk_text_partition:
  assumes "0 < chunk_size self"
  shows "length (chunk_text self text)
           = (length (split text) + nat (chunk_size self) - 1) div nat (chunk_size self)
       \<and> (split text = [] \<longrightarrow> chunk_text self text = [])
       \<and> (\<forall>i < length (chunk_text self text).
             if Suc i < length (chunk_text self text)
             then length (split (chunk_text self text ! i)) = nat (chunk_size self)
             else 1 \<le> length (split (chunk_text self text ! i))
                  \<and> length (split (chunk_text self text ! i)) \<le> nat (chunk_size self))
       \<and> concat (map split (chunk_text self text)) = split text"
proof -
  let ?n = "nat (chunk_size self)"
  let ?G = "groups ?n (split text)"
  have n: "0 < ?n" using assms by simp
  have m: "map split (chunk_text self text) = ?G"
    using assms by (rule map_split_chunk_text)
  have len: "length (chunk_text self text) = length ?G"
    using m by (metis length_map)
  have nth: "split (chunk_text self text ! i) = ?G ! i" if "i < length (chunk_text self text)" for i
    using m that by (metis nth_map)
  have a: "length (chunk_text self text) = (length (split text) + ?n - 1) div ?n"
    using len n by (simp add: length_groups)
  have b: "split text = [] \<longrightarrow> chunk_text self text = []"
    using assms by (simp add: chunk_text_groups groups_Nil)
  have c: "\<forall>i < length (chunk_text self text).
             if Suc i < length (chunk_text self text)
             then length (split (chunk_text self text ! i)) = ?n
             else 1 \<le> length (split (chunk_text self text ! i))
                  \<and> length (split (chunk_text self text ! i)) \<le> ?n"
  proof (intro allI impI)
    fix i assume i: "i < length (chunk_text self text)"
    then have "i < length ?G" using len by simp
    from groups_sizes [OF n this] show
      "if Suc i < length (chunk_text self text)
       then length (split (chunk_text self text ! i)) = ?n
       else 1 \<le> length (split (chunk_text self text ! i))
            \<and> length (split (chunk_text self text ! i)) \<le> ?n"
      by (simp only: nth [OF i] len)
  qed
  have d: "concat (map split (chunk_text self text)) = split text"
    using m n by (simp add: concat_groups)
  from a b c d show ?thesis by blast
qed

theorem chunk_text_partition_witness:
  "0 < chunk_size \<lparr>chunk_size = 2, model = [], prompt_file = [], prompts = []\<rparr>
   \<and> chunk_text \<lparr>chunk_size = 2, model = [], prompt_file = [], prompts = []\<rparr> ''a b  c d e''
       = [''a b'', ''c d'', ''e'']
   \<and> length (chunk_text \<lparr>chunk_size = 2, model = [], prompt_file = [], prompts = []\<rparr>
        ''a b  c d e'') = (5 + 2 - 1) div 2
   \<and> concat (map split (chunk_text \<lparr>chunk_size = 2, model = [], prompt_file = [], prompts = []\<rparr>
        ''a b  c d e'')) = [''a'', ''b'', ''c'', ''d'', ''e'']"
proof -
  have h: "0 < chunk_size \<lparr>chunk_size = 2, model = [], prompt_file = [], prompts = []\<rparr>"
    by simp
  have s: "split ''a b  c d e'' = [''a'', ''b'', ''c'', ''d'', ''e'']"
    by (simp add: split.simps isspace_def)
  have c: "chunk_text \<lparr>chunk_size = 2, model = [], prompt_file = [], prompts = []\<rparr> ''a b  c d e''
       = [''a b'', ''c d'', ''e'']"
    by (simp add: chunk_text_def s)
  show ?thesis
    using chunk_text_partition [OF h, of "''a b  c d e''"] h s c by simp
qed

section \<open>Text normalisation\<close>

lemma re_match_space_star: "re_match [(Space, Star)] s = Some (length (takeWhile isspace s))"
  by (induction s) simp_all

lemma re_match_whitespace_run:
  "re_match whitespace_run (c # cs) =
     (if isspace c then Some (Suc (length (takeWhile isspace cs))) else None)"
  by (simp add: whitespace_run_def re_match_space_star)

lemma collapse_Nil: "re_sub whitespace_run repl [] = []"
  by (simp add: whitespace_run_def re_sub.simps)

lemma collapse_nonspace:
  "\<not> isspace c \<Longrightarrow> re_sub whitespace_run repl (c # cs) = c # re_sub whitespace_run repl cs"
  by (simp add: re_match_whitespace_run re_sub.simps)

lemma drop_takeWhile: "drop (length (takeWhile P xs)) xs = dropWhile P xs"
  by (induction xs) simp_all

lemma collapse_space:
  "isspace c \<Longrightarrow>
     re_sub whitespace_run repl (c # cs) = repl @ re_sub whitespace_run repl (dropWhile isspace cs)"
  by (simp add: re_match_whitespace_run drop_takeWhile re_sub.simps)

lemma collapse_word:
  "\<forall>x\<in>set w. \<not> isspace x \<Longrightarrow>
     re_sub whitespace_run repl (w @ r) = w @ re_sub whitespace_run repl r"
  by (induction w) (simp_all add: collapse_nonspace)

lemma collapse_only_blanks:
  "c \<in> set (re_sub whitespace_run '' '' s) \<Longrightarrow> isspace c \<Longrightarrow> c = CHR '' ''"
proof (induction whitespace_run "'' ''" s rule: re_sub.induct)
  case 1
  then show ?case by (simp add: collapse_Nil)
next
  case (2 d ds)
  show ?case
  proof (cases "isspace d")
    case True
    then have m: "re_match whitespace_run (d # ds) = Some (Suc (length (takeWhile isspace ds)))"
      by (simp add: re_match_whitespace_run)
    have "c \<in> set ('' '' @ re_sub whitespace_run '' '' (drop (length (takeWhile isspace ds)) ds))"
      using 2(4) True by (simp add: collapse_space drop_takeWhile)
    then show ?thesis using 2(3) [OF m] 2(5) by auto
  next
    case False
    then have m: "re_match whitespace_run (d # ds) = None"
      by (simp add: re_match_whitespace_run)
    have "c \<in> set (d # re_sub whitespace_run '' '' ds)"
      using 2(4) False by (simp add: collapse_nonspace)
    then show ?thesis using 2(1) [OF m] 2(5) False by auto
  qed
qed

lemma isspace_newline: "isspace newline"
  by (simp add: isspace_def newline_def)

lemma collapse_no_newline: "newline \<notin> set (re_sub whitespace_run '' '' s)"
proof
  assume "newline \<in> set (re_sub whitespace_run '' '' s)"
  then have "newline = CHR '' ''" using isspace_newline by (rule collapse_only_blanks)
  then show False by (simp add: newline_def)
qed

lemma re_sub_needs_first:
  "a \<notin> set s \<Longrightarrow> re_sub ((Lit a, One) # r) repl s = s"
  by (induction s) (auto simp: re_sub.simps)


lemma rstrip_append: "\<exists>x\<in>set t. \<not> isspace x \<Longrightarrow> rstrip (u @ t) = u @ rstrip t"
proof -
  assume "\<exists>x\<in>set t. \<not> isspace x"
  then obtain x where "x \<in> set (rev t)" and "\<not> isspace x" by auto
  then have "dropWhile isspace (rev t @ rev u) = dropWhile isspace (rev t) @ rev u"
    by (rule dropWhile_append1)
  then show ?thesis by (simp add: rstrip_def)
qed

lemma rstrip_spaces: "\<forall>x\<in>set t. isspace x \<Longrightarrow> rstrip (u @ t) = rstrip u"
proof -
  assume a: "\<forall>x\<in>set t. isspace x"
  have "dropWhile isspace (rev t @ rev u) = dropWhile isspace (rev u)"
    by (rule dropWhile_append2) (use a in auto)
  then show ?thesis by (simp add: rstrip_def)
qed

lemma rstrip_word: "w = [] \<or> \<not> isspace (last w) \<Longrightarrow> rstrip w = w"
  by (cases w rule: rev_cases) (auto simp: rstrip_def)

lemma strip_rstrip: "strip s = rstrip (dropWhile isspace s)"
  by (simp add: strip_def rstrip_def)

lemma collapse_at_word:
  "s = [] \<or> \<not> isspace (hd s) \<Longrightarrow>
     dropWhile isspace (re_sub whitespace_run '' '' s) = re_sub whitespace_run '' '' s"
  by (cases s) (auto simp: collapse_Nil collapse_nonspace)

lemma dropWhile_at_word:
  "dropWhile isspace s = [] \<or> \<not> isspace (hd (dropWhile isspace s))"
  using hd_dropWhile [of isspace s] by blast

lemma lstrip_collapse:
  "dropWhile isspace (re_sub whitespace_run '' '' s)
     = re_sub whitespace_run '' '' (dropWhile isspace s)"
proof (cases s)
  case Nil
  then show ?thesis by (simp add: collapse_Nil)
next
  case (Cons c cs)
  show ?thesis
  proof (cases "isspace c")
    case True
    have "dropWhile isspace (re_sub whitespace_run '' '' (dropWhile isspace cs))
            = re_sub whitespace_run '' '' (dropWhile isspace cs)"
      using dropWhile_at_word [of cs] by (rule collapse_at_word)
    then show ?thesis using True Cons by (simp add: collapse_space isspace_blank)
  next
    case False
    then show ?thesis using Cons collapse_at_word [of s] by simp
  qed
qed

lemma collapse_spaces_then:
  "r \<noteq> [] \<Longrightarrow> isspace (hd r) \<Longrightarrow>
     re_sub whitespace_run '' '' r = '' '' @ re_sub whitespace_run '' '' (dropWhile isspace r)"
  by (cases r) (simp_all add: collapse_space)

lemma rstrip_step:
  assumes w_ns: "\<forall>x\<in>set w. \<not> isspace x" and w_ne: "w \<noteq> []"
    and r_hd: "r = [] \<or> isspace (hd r)"
    and IH: "rstrip (re_sub whitespace_run '' '' (dropWhile isspace r)) = join '' '' (split r)"
  shows "rstrip (re_sub whitespace_run '' '' (w @ r)) = join '' '' (w # split r)"
proof -
  define C where "C = re_sub whitespace_run '' ''"
  define r1 where "r1 = dropWhile isspace r"
  have w_last: "\<not> isspace (last w)" using w_ns w_ne last_in_set by blast
  have cw: "C (w @ r) = w @ C r"
    unfolding C_def using w_ns by (rule collapse_word)
  show ?thesis
  proof (cases "r = []")
    case True
    have "rstrip (w @ C r) = w"
      using True w_last by (simp add: C_def collapse_Nil rstrip_word)
    then show ?thesis using True cw by (simp add: C_def split_Nil)
  next
    case False
    then have d: "isspace (hd r)" using r_hd by simp
    have cr: "C r = '' '' @ C r1"
      unfolding C_def r1_def using False d by (rule collapse_spaces_then)
    show ?thesis
    proof (cases r1)
      case Nil
      then have e: "split r = []" unfolding r1_def by (rule split_unfold_Nil)
      have "C r1 = []" using Nil by (simp add: C_def collapse_Nil)
      then have "rstrip (w @ C r) = rstrip (w @ '' '')" using cr by simp
      also have "\<dots> = rstrip w" by (rule rstrip_spaces) (simp add: isspace_blank)
      also have "\<dots> = w" using w_last by (simp add: rstrip_word)
      finally show ?thesis using cw e by (simp add: C_def)
    next
      case (Cons e es)
      have ne: "\<not> isspace e"
        using Cons hd_dropWhile [of isspace r] unfolding r1_def by force
      have "C r1 = e # C es"
        unfolding C_def Cons using ne by (rule collapse_nonspace)
      then have ex: "\<exists>x\<in>set (C r1). \<not> isspace x" using ne by auto
      obtain y ys where spr: "split r = y # ys"
        using split_unfold_Cons [of r e es] Cons unfolding r1_def by blast
      have "rstrip (w @ C r) = rstrip ((w @ '' '') @ C r1)" using cr by simp
      also have "\<dots> = (w @ '' '') @ rstrip (C r1)" using ex by (rule rstrip_append)
      also have "\<dots> = (w @ '' '') @ join '' '' (split r)"
        using IH by (simp only: C_def r1_def)
      also have "\<dots> = join '' '' (w # split r)" by (simp add: spr)
      finally show ?thesis using cw by (simp only: C_def)
    qed
  qed
qed

lemma rstrip_collapse:
  "rstrip (re_sub whitespace_run '' '' (dropWhile isspace s)) = join '' '' (split s)"
proof (induction s rule: split.induct)
  case (1 s)
  show ?case
  proof (cases "dropWhile isspace s")
    case Nil
    have "split s = []" using Nil by (rule split_unfold_Nil)
    moreover have "rstrip (re_sub whitespace_run '' '' (dropWhile isspace s)) = []"
      unfolding Nil by (simp add: collapse_Nil rstrip_def)
    ultimately show ?thesis by simp
  next
    case (Cons c cs)
    define w where "w = takeWhile (\<lambda>x. \<not> isspace x) (c # cs)"
    define r where "r = dropWhile (\<lambda>x. \<not> isspace x) (c # cs)"
    have nc: "\<not> isspace c" using Cons hd_dropWhile [of isspace s] by force
    have wr: "c # cs = w @ r" unfolding w_def r_def by (simp only: takeWhile_dropWhile_id)
    have w_ns: "\<forall>x\<in>set w. \<not> isspace x" unfolding w_def by (auto dest: set_takeWhileD)
    have w_ne: "w \<noteq> []" unfolding w_def using nc by simp
    have r_hd: "r = [] \<or> isspace (hd r)"
      unfolding r_def using hd_dropWhile [of "\<lambda>x. \<not> isspace x" "c # cs"] by blast
    have sp: "split s = w # split r"
      unfolding w_def r_def using Cons by (rule split_unfold_Cons)
    have IH: "rstrip (re_sub whitespace_run '' '' (dropWhile isspace r)) = join '' '' (split r)"
      unfolding r_def using 1 [OF Cons] .
    have "rstrip (re_sub whitespace_run '' '' (w @ r)) = join '' '' (w # split r)"
      using w_ns w_ne r_hd IH by (rule rstrip_step)
    then show ?thesis by (simp only: Cons wr sp)
  qed
qed

lemma strip_subset: "set (strip s) \<subseteq> set s"
  by (auto simp: strip_def dest!: set_dropWhileD)

lemma strip_collapse: "strip (re_sub whitespace_run '' '' s) = join '' '' (split s)"
  by (simp only: strip_rstrip lstrip_collapse rstrip_collapse)

lemma page_number_line_noop:
  "re_sub page_number_line [newline] (re_sub whitespace_run '' '' s)
     = re_sub whitespace_run '' '' s"
  unfolding page_number_line_def using collapse_no_newline by (rule re_sub_needs_first)

lemma blank_lines_noop:
  "re_sub blank_lines [newline, newline] (re_sub whitespace_run '' '' s)
     = re_sub whitespace_run '' '' s"
  unfolding blank_lines_def using collapse_no_newline by (rule re_sub_needs_first)

lemma clean_text_join_split: "clean_text s = join '' '' (split s)"
proof (cases "s = []")
  case True
  then show ?thesis by (simp add: clean_text_def split_Nil)
next
  case False
  then show ?thesis
    by (simp add: clean_text_def page_number_line_noop blank_lines_noop strip_collapse)
qed

text \<open>
  C9. \<open>_clean_text\<close> returns the whitespace-split words of its input joined by single
  spaces, so its result has no newline; the collapsed text has none either, and the two
  substitutions that follow the collapse leave it as it is.
\<close>

theorem clean_text_normalises:
  "clean_text text = join '' '' (split text)
   \<and> newline \<notin> set (clean_text text)
   \<and> newline \<notin> set (re_sub whitespace_run '' '' text)
   \<and> re_sub page_number_line [newline] (re_sub whitespace_run '' '' text)
       = re_sub whitespace_run '' '' text
   \<and> re_sub blank_lines [newline, newline]
         (re_sub page_number_line [newline] (re_sub whitespace_run '' '' text))
       = re_sub page_number_line [newline] (re_sub whitespace_run '' '' text)"
proof -
  let ?t = "re_sub whitespace_run '' '' text"
  have nl: "newline \<notin> set ?t" by (rule collapse_no_newline)
  have p: "re_sub page_number_line [newline] ?t = ?t" by (rule page_number_line_noop)
  have b: "re_sub blank_lines [newline, newline] ?t = ?t" by (rule blank_lines_noop)
  have c: "clean_text text = join '' '' (split text)" by (rule clean_text_join_split)
  have "clean_text text = strip ?t"
    using c by (simp only: strip_collapse)
  then have n: "newline \<notin> set (clean_text text)"
    using nl strip_subset [of ?t] by auto
  show ?thesis using c n nl p b by simp
qed

theorem clean_text_normalises_witness:
  "clean_text (''  a'' @ [newline] @ '' 12 '' @ [newline, newline] @ ''b  '') = ''a 12 b''
   \<and> newline \<notin> set (clean_text (''  a'' @ [newline] @ '' 12 '' @ [newline, newline] @ ''b  ''))"
proof -
  have s: "split (''  a'' @ [newline] @ '' 12 '' @ [newline, newline] @ ''b  '')
             = [''a'', ''12'', ''b'']"
    by (simp add: split.simps isspace_def newline_def)
  note t = clean_text_normalises
    [of "''  a'' @ [newline] @ '' 12 '' @ [newline, newline] @ ''b  ''"]
  from t have "clean_text (''  a'' @ [newline] @ '' 12 '' @ [newline, newline] @ ''b  '')
      = join '' '' [''a'', ''12'', ''b'']"
    by (simp only: s)
  then have a: "clean_text (''  a'' @ [newline] @ '' 12 '' @ [newline, newline] @ ''b  '')
      = ''a 12 b''"
    by simp
  from t have b: "newline
      \<notin> set (clean_text (''  a'' @ [newline] @ '' 12 '' @ [newline, newline] @ ''b  ''))"
    by blast
  from a b show ?thesis by blast
qed

section \<open>Parsing the prompt file\<close>

lemma split_on_not_Nil: "split_on sep s \<noteq> []"
  by (induction s) (auto split: list.splits)

lemma split_on_absent: "sep \<notin> set s \<Longrightarrow> split_on sep s = [s]"
  by (induction s) auto

lemma split_on_append:
  "sep \<notin> set b \<Longrightarrow> split_on sep (a @ sep # b) = split_on sep a @ [b]"
proof (induction a)
  case Nil
  then show ?case by (simp add: split_on_absent)
next
  case (Cons c a)
  obtain x xs where "split_on sep a = x # xs"
    using split_on_not_Nil [of sep a] by (cases "split_on sep a") auto
  then show ?case using Cons by simp
qed

lemma load_sections_append:
  "load_sections (xs @ ys) store = load_sections ys (load_sections xs store)"
  by (induction xs arbitrary: store) (simp_all add: Let_def)

lemma parse_prompts_append:
  assumes "CHR ''['' \<notin> set t"
  shows "parse_prompts (content @ CHR ''['' # t) = load_sections [t] (parse_prompts content)"
proof -
  have "tl (split_on CHR ''['' content @ [t]) = tl (split_on CHR ''['' content) @ [t]"
    using split_on_not_Nil [of "CHR ''[''" content] by simp
  then show ?thesis
    using assms by (simp add: parse_prompts_def split_on_append load_sections_append)
qed

lemma parse_prompts_section:
  assumes "CHR ''['' \<notin> set name" and "CHR '']'' \<notin> set name" and "CHR ''['' \<notin> set body"
  shows "parse_prompts (content @ ''['' @ name @ '']'' @ body)
           = AList.update (strip name) (strip body) (parse_prompts content)"
proof -
  have t: "takeWhile (\<lambda>c. c \<noteq> CHR '']'') (name @ CHR '']'' # body) = name"
    using assms(2) by (induction name) auto
  have d: "dropWhile (\<lambda>c. c \<noteq> CHR '']'') (name @ CHR '']'' # body) = CHR '']'' # body"
    using assms(2) by (induction name) auto
  have "parse_prompts (content @ CHR ''['' # (name @ CHR '']'' # body))
          = load_sections [name @ CHR '']'' # body] (parse_prompts content)"
    using assms by (intro parse_prompts_append) simp
  then show ?thesis by (simp add: t d del: takeWhile_append dropWhile_append)
qed

lemma parse_prompts_unclosed:
  assumes "CHR ''['' \<notin> set t" and "CHR '']'' \<notin> set t"
  shows "parse_prompts (content @ ''['' @ t) = parse_prompts content"
  using parse_prompts_append [OF assms(1), of content] assms(2) by simp

lemma parse_prompts_no_bracket: "CHR ''['' \<notin> set content \<Longrightarrow> parse_prompts content = []"
  by (simp add: parse_prompts_def split_on_absent)

lemma universal_newlines_subset: "set (universal_newlines s) \<subseteq> insert newline (set s)"
  by (induction s rule: universal_newlines.induct) auto

lemma universal_newlines_no_bracket:
  "CHR ''['' \<notin> set content \<Longrightarrow> CHR ''['' \<notin> set (universal_newlines content)"
  using universal_newlines_subset [of content] by (auto simp: newline_def)

lemma load_prompts_no_bracket:
  assumes "CHR ''['' \<notin> set content" and "map_of (files w) file = Some content"
  shows "load_prompts file w
           = Inl (ValueError (''Required prompt section '' @ [CHR 0x27] @ ''[CHUNK_ANALYSIS_PROMPT]''
                    @ [CHR 0x27] @ '' not found in '' @ file))"
  using assms universal_newlines_no_bracket [of content]
  by (simp add: load_prompts_def parse_prompts_no_bracket required_prompts_def)

text \<open>
  C6. Parsing \<open>[A]x[B]y\<close> gives \<open>{A: x, B: y}\<close> and parsing \<open>[A]x[A]y\<close> gives \<open>{A: y}\<close>: a
  further section is inserted into the dictionary parsed so far, so that the last
  occurrence of a name wins. A last section with no closing bracket is dropped. A text
  with no opening bracket gives the empty dictionary, on which loading raises the
  \<open>ValueError\<close> of the first required section.
\<close>

theorem parse_prompts_sections:
  "parse_prompts ''[A]x[B]y'' = [(''A'', ''x''), (''B'', ''y'')]
   \<and> parse_prompts ''[A]x[A]y'' = [(''A'', ''y'')]
   \<and> (CHR ''['' \<notin> set name \<and> CHR '']'' \<notin> set name \<and> CHR ''['' \<notin> set body \<longrightarrow>
        parse_prompts (content @ ''['' @ name @ '']'' @ body)
          = AList.update (strip name) (strip body) (parse_prompts content))
   \<and> (CHR ''['' \<notin> set t \<and> CHR '']'' \<notin> set t \<longrightarrow>
        parse_prompts (content @ ''['' @ t) = parse_prompts content)
   \<and> (CHR ''['' \<notin> set plain \<longrightarrow> parse_prompts plain = [])
   \<and> (CHR ''['' \<notin> set plain \<and> map_of (files w) file = Some plain \<longrightarrow>
        load_prompts file w
          = Inl (ValueError (''Required prompt section '' @ [CHR 0x27]
                   @ ''[CHUNK_ANALYSIS_PROMPT]'' @ [CHR 0x27] @ '' not found in '' @ file)))"
proof -
  have a: "parse_prompts ''[A]x[B]y'' = [(''A'', ''x''), (''B'', ''y'')]"
    by (simp add: parse_prompts_def strip_def isspace_def)
  have b: "parse_prompts ''[A]x[A]y'' = [(''A'', ''y'')]"
    by (simp add: parse_prompts_def strip_def isspace_def)
  show ?thesis
    using a b parse_prompts_section [of name body content] parse_prompts_unclosed [of t content]
      parse_prompts_no_bracket [of plain] load_prompts_no_bracket [of plain w "file"]
    by blast
qed

theorem parse_prompts_sections_witness:
  "parse_prompts (''[A]x'' @ ''['' @ '' A '' @ '']'' @ '' y] '') = [(''A'', ''y]'')]
   \<and> parse_prompts (''[A]x'' @ ''['' @ ''B y'') = [(''A'', ''x'')]
   \<and> parse_prompts ''no sections'' = []
   \<and> load_prompts ''prompts.txt'' \<lparr>clock = 0, files = [(''prompts.txt'', ''no sections'')]\<rparr>
       = Inl (ValueError (''Required prompt section '' @ [CHR 0x27]
                @ ''[CHUNK_ANALYSIS_PROMPT]'' @ [CHR 0x27] @ '' not found in prompts.txt''))"
proof -
  note t = parse_prompts_sections [of "'' A ''" "'' y] ''" "''[A]x''" "''B y''" "''no sections''"
      "\<lparr>clock = 0, files = [(''prompts.txt'', ''no sections'')]\<rparr>" "''prompts.txt''"]
  have p: "parse_prompts ''[A]x'' = [(''A'', ''x'')]"
    by (simp add: parse_prompts_def strip_def isspace_def)
  have s: "strip '' A '' = ''A''" "strip '' y] '' = ''y]''"
    by (simp_all add: strip_def isspace_def)
  from t have "parse_prompts (''[A]x'' @ ''['' @ '' A '' @ '']'' @ '' y] '')
      = AList.update (strip '' A '') (strip '' y] '') (parse_prompts ''[A]x'')"
    by simp
  then have a: "parse_prompts (''[A]x'' @ ''['' @ '' A '' @ '']'' @ '' y] '') = [(''A'', ''y]'')]"
    by (simp only: p s) simp
  from t have "parse_prompts (''[A]x'' @ ''['' @ ''B y'') = parse_prompts ''[A]x''"
    by simp
  then have b: "parse_prompts (''[A]x'' @ ''['' @ ''B y'') = [(''A'', ''x'')]"
    by (simp only: p)
  from t have c: "parse_prompts ''no sections'' = []"
    by simp
  from t have d: "load_prompts ''prompts.txt''
        \<lparr>clock = 0, files = [(''prompts.txt'', ''no sections'')]\<rparr>
       = Inl (ValueError (''Required prompt section '' @ [CHR 0x27]
                @ ''[CHUNK_ANALYSIS_PROMPT]'' @ [CHR 0x27] @ '' not found in prompts.txt''))"
    by simp
  from a b c d show ?thesis by blast
qed

section \<open>Loading the prompts\<close>






section \<open>Company names and file names\<close>

lemmas url_simps =
  extract_company_name_from_url_def urlparse_netloc_def isalpha_ascii_def islower_ascii_def
  isupper_ascii_def scheme_char_def isalnum_ascii_def isdecimal_def lower_def lower_char_def
  remove_prefix_def startswith_def company_mapping_def re_sub.simps

lemma output_filename_fallback:
  "extract_company_name_from_url url = None \<or> extract_company_name_from_url url = Some []
     \<Longrightarrow> output_filename url idx = ''report_'' @ str_int idx @ ''_analysis.txt''"
  by (auto simp: output_filename_def)

lemma output_filename_company:
  "extract_company_name_from_url url = Some name \<Longrightarrow> name \<noteq> []
     \<Longrightarrow> output_filename url idx = name @ ''_analysis.txt''"
  by (simp add: output_filename_def)

lemma str_int_3: "str_int 3 = ''3''"
  by (simp add: str_int_def str_nat.simps digit_char_def)

text \<open>
  C8. The company names derived from the three URLs of the specification, with the file
  names that follow from them; and the fallback: when no name is derived (the URL does not
  parse, or the name is empty), the file is \<open>report_{index}_analysis.txt\<close>.
\<close>

theorem company_name_derivation:
  "extract_company_name_from_url ''https://www.pfizer.com/report.pdf'' = Some ''pfizer''
   \<and> extract_company_name_from_url ''https://assets-dam.novartis.com/x.pdf'' = Some ''novartis''
   \<and> extract_company_name_from_url ''https://example.com/x.pdf'' = Some ''example''
   \<and> output_filename ''https://www.pfizer.com/report.pdf'' idx = ''pfizer_analysis.txt''
   \<and> output_filename ''https://assets-dam.novartis.com/x.pdf'' idx = ''novartis_analysis.txt''
   \<and> output_filename ''https://example.com/x.pdf'' idx = ''example_analysis.txt''
   \<and> (extract_company_name_from_url url = None \<or> extract_company_name_from_url url = Some []
        \<longrightarrow> output_filename url idx = ''report_'' @ str_int idx @ ''_analysis.txt'')
   \<and> extract_company_name_from_url ''http://[::1/x.pdf'' = None
   \<and> extract_company_name_from_url ''http:x.pdf'' = Some []"
proof -
  have a: "extract_company_name_from_url ''https://www.pfizer.com/report.pdf'' = Some ''pfizer''"
    by (simp add: url_simps)
  have b: "extract_company_name_from_url ''https://assets-dam.novartis.com/x.pdf''
             = Some ''novartis''"
    by (simp add: url_simps)
  have c: "extract_company_name_from_url ''https://example.com/x.pdf'' = Some ''example''"
    by (simp add: url_simps)
  have d: "extract_company_name_from_url ''http://[::1/x.pdf'' = None"
    by (simp add: url_simps)
  have e: "extract_company_name_from_url ''http:x.pdf'' = Some []"
    by (simp add: url_simps)
  show ?thesis
    using a b c d e output_filename_fallback [of url idx]
      output_filename_company [OF a, of idx] output_filename_company [OF b, of idx]
      output_filename_company [OF c, of idx]
    by simp
qed

theorem company_name_derivation_witness:
  "output_filename ''http://[::1/x.pdf'' 3 = ''report_3_analysis.txt''
   \<and> output_filename ''http:x.pdf'' 3 = ''report_3_analysis.txt''"
proof -
  have a: "output_filename ''http://[::1/x.pdf'' 3 = ''report_3_analysis.txt''"
    using company_name_derivation [of 3 "''http://[::1/x.pdf''"]
    by (simp add: str_int_3)
  have "extract_company_name_from_url ''http:x.pdf'' = Some []"
    using company_name_derivation [of 3 "''http:x.pdf''"] by blast
  then have b: "output_filename ''http:x.pdf'' 3 = ''report_3_analysis.txt''"
    using company_name_derivation [of 3 "''http:x.pdf''"]
    by (simp add: str_int_3)
  from a b show ?thesis by blast
qed

section \<open>Failures of the model\<close>

lemma files_tick: "files (tick w) = files w"
  by (simp add: tick_def)

lemma analyze_chunk_called:
  assumes "dict_get (prompts self) ''CHUNK_ANALYSIS_PROMPT'' [] \<noteq> []"
    and "str_format E (dict_get (prompts self) ''CHUNK_ANALYSIS_PROMPT'' [])
           [(''chunk'', PyStr chunk), (''chunk_number'', PyInt n), (''total_chunks'', PyInt m)]
         = Inr prompt"
  shows "analyze_chunk self E chunk n m w =
           (Inr (case chat_completion E (clock w) (model self) chunk_system_message prompt of
                   Inl e \<Rightarrow> Some (''Error analyzing chunk '' @ str_int n @ '': '' @ message e)
                 | Inr summary \<Rightarrow> summary),
            tick w)"
  using assms by (simp add: analyze_chunk_def split: sum.split)

lemma str_items_Some: "str_items i (map Some xs) = Inr xs"
  by (induction xs arbitrary: i) simp_all

lemma combine_summaries_called:
  assumes "dict_get (prompts self) ''SUMMARY_COMBINATION_PROMPT'' [] \<noteq> []"
    and "str_format E (dict_get (prompts self) ''SUMMARY_COMBINATION_PROMPT'' [])
           [(''combined_text'', PyStr (join [newline, newline] chunk_summaries))]
         = Inr final_prompt"
  shows "combine_summaries self E (map Some chunk_summaries) w =
           (Inr (case chat_completion E (clock w) (model self) summary_system_message
                        final_prompt of
                   Inl e \<Rightarrow> Some (''Error generating final summary: '' @ message e)
                 | Inr final_summary \<Rightarrow> final_summary),
            tick w)"
  using assms by (simp add: combine_summaries_def str_items_Some split: sum.split)

text \<open>
  C2. With a non-empty template that formats, a model call that raises makes
  \<open>analyze_chunk\<close> return the string \<open>Error analyzing chunk {chunk_number}: {message}\<close>,
  and \<open>combine_summaries\<close>, on any list of strings, return
  \<open>Error generating final summary: {message}\<close>: the exception is not raised further.
\<close>

theorem llm_failure_not_propagated:
  "(dict_get (prompts self) ''CHUNK_ANALYSIS_PROMPT'' [] \<noteq> []
    \<and> str_format E (dict_get (prompts self) ''CHUNK_ANALYSIS_PROMPT'' [])
          [(''chunk'', PyStr chunk), (''chunk_number'', PyInt chunk_number),
           (''total_chunks'', PyInt total_chunks)] = Inr prompt
    \<and> chat_completion E (clock w) (model self) chunk_system_message prompt = Inl e
    \<longrightarrow> analyze_chunk self E chunk chunk_number total_chunks w
          = (Inr (Some (''Error analyzing chunk '' @ str_int chunk_number @ '': '' @ message e)),
             tick w))
   \<and> (dict_get (prompts self) ''SUMMARY_COMBINATION_PROMPT'' [] \<noteq> []
      \<and> str_format E (dict_get (prompts self) ''SUMMARY_COMBINATION_PROMPT'' [])
            [(''combined_text'', PyStr (join [newline, newline] chunk_summaries))]
          = Inr final_prompt
      \<and> chat_completion E (clock w) (model self) summary_system_message final_prompt = Inl e
      \<longrightarrow> combine_summaries self E (map Some chunk_summaries) w
            = (Inr (Some (''Error generating final summary: '' @ message e)), tick w))"
proof (intro conjI impI; elim conjE)
  assume t: "dict_get (prompts self) ''CHUNK_ANALYSIS_PROMPT'' [] \<noteq> []"
    and f: "str_format E (dict_get (prompts self) ''CHUNK_ANALYSIS_PROMPT'' [])
          [(''chunk'', PyStr chunk), (''chunk_number'', PyInt chunk_number),
           (''total_chunks'', PyInt total_chunks)] = Inr prompt"
    and c: "chat_completion E (clock w) (model self) chunk_system_message prompt = Inl e"
  show "analyze_chunk self E chunk chunk_number total_chunks w
          = (Inr (Some (''Error analyzing chunk '' @ str_int chunk_number @ '': '' @ message e)),
             tick w)"
    using analyze_chunk_called [OF t f, of w] c by simp
next
  assume t: "dict_get (prompts self) ''SUMMARY_COMBINATION_PROMPT'' [] \<noteq> []"
    and f: "str_format E (dict_get (prompts self) ''SUMMARY_COMBINATION_PROMPT'' [])
            [(''combined_text'', PyStr (join [newline, newline] chunk_summaries))]
          = Inr final_prompt"
    and c: "chat_completion E (clock w) (model self) summary_system_message final_prompt = Inl e"
  show "combine_summaries self E (map Some chunk_summaries) w
            = (Inr (Some (''Error generating final summary: '' @ message e)), tick w)"
    using combine_summaries_called [OF t f, of w] c by simp
qed

lemma str_int_12: "str_int 12 = ''12''"
  by (simp add: str_int_def str_nat.simps digit_char_def)

theorem llm_failure_not_propagated_witness:
  "analyze_chunk example_analyzer example_outside ''Revenue grew.'' 12 20 empty_world
     = (Inr (Some ''Error analyzing chunk 12: rate limit''), tick empty_world)
   \<and> combine_summaries example_analyzer example_outside [Some ''a'', Some ''b''] empty_world
     = (Inr (Some ''Error generating final summary: rate limit''), tick empty_world)"
  using llm_failure_not_propagated [of example_analyzer example_outside "''Revenue grew.''" 12 20
      "''Summarize Revenue grew.''" empty_world "OtherError ''rate limit''" "[''a'', ''b'']"
      "''Combine a'' @ [newline, newline] @ ''b''"]
  by (simp add: example_analyzer_def example_outside_def dict_get_def str_int_12)

section \<open>The report pipeline\<close>

lemma summary_text:
  assumes "\<forall>t mdl s p. chat_completion E t mdl s p \<noteq> Inr None"
  shows "\<exists>text. (case chat_completion E t mdl s p of
                   Inl e \<Rightarrow> Some (marker e)
                 | Inr summary \<Rightarrow> summary) = Some text
           \<and> ((\<forall>t mdl s p. \<exists>e. chat_completion E t mdl s p = Inl e) \<longrightarrow> (\<exists>e. text = marker e))"
proof (cases "chat_completion E t mdl s p")
  case (Inl e)
  then show ?thesis by auto
next
  case (Inr summary)
  then have "summary \<noteq> None" using assms by metis
  then obtain x where x: "summary = Some x" by blast
  have "\<not> (\<forall>t mdl s p. \<exists>e. chat_completion E t mdl s p = Inl e)"
  proof
    assume "\<forall>t mdl s p. \<exists>e. chat_completion E t mdl s p = Inl e"
    then obtain e where "chat_completion E t mdl s p = Inl e" by blast
    then show False using Inr by simp
  qed
  moreover have "(case chat_completion E t mdl s p of
                   Inl e \<Rightarrow> Some (marker e)
                 | Inr summary \<Rightarrow> summary) = Some x"
    using Inr x by simp
  ultimately show ?thesis by blast
qed

lemma analyze_chunks_summaries:
  assumes t: "dict_get (prompts self) ''CHUNK_ANALYSIS_PROMPT'' [] \<noteq> []"
    and f: "\<forall>chunk n m. \<exists>p. str_format E (dict_get (prompts self) ''CHUNK_ANALYSIS_PROMPT'' [])
                 [(''chunk'', PyStr chunk), (''chunk_number'', PyInt n),
                  (''total_chunks'', PyInt m)] = Inr p"
    and nn: "\<forall>t mdl s p. chat_completion E t mdl s p \<noteq> Inr None"
  shows "\<exists>sums w'. analyze_chunks self E chunks i m acc w = (Inr (acc @ map Some sums), w')
           \<and> length sums = length chunks \<and> files w' = files w
           \<and> ((\<forall>t mdl s p. \<exists>e. chat_completion E t mdl s p = Inl e) \<longrightarrow>
                (\<forall>k<length sums. \<exists>e. sums ! k
                     = ''Error analyzing chunk '' @ str_int (i + int k) @ '': '' @ message e))"
proof (induction chunks arbitrary: i acc w)
  case Nil
  then show ?case by simp
next
  case (Cons chunk chunks)
  obtain p where p: "str_format E (dict_get (prompts self) ''CHUNK_ANALYSIS_PROMPT'' [])
      [(''chunk'', PyStr chunk), (''chunk_number'', PyInt i), (''total_chunks'', PyInt m)] = Inr p"
    using f by blast
  obtain s0 where s0: "(case chat_completion E (clock w) (model self) chunk_system_message p of
                   Inl e \<Rightarrow> Some (''Error analyzing chunk '' @ str_int i @ '': '' @ message e)
                 | Inr summary \<Rightarrow> summary) = Some s0"
    and m0: "(\<forall>t mdl s p. \<exists>e. chat_completion E t mdl s p = Inl e) \<longrightarrow>
               (\<exists>e. s0 = ''Error analyzing chunk '' @ str_int i @ '': '' @ message e)"
    using summary_text [OF nn, where t = "clock w" and mdl = "model self"
        and s = chunk_system_message and p = p
        and marker = "\<lambda>e. ''Error analyzing chunk '' @ str_int i @ '': '' @ message e"]
    by blast
  have c: "analyze_chunk self E chunk i m w = (Inr (Some s0), tick w)"
    using analyze_chunk_called [OF t p, of w] s0 by simp
  obtain sums w' where r: "analyze_chunks self E chunks (i + 1) m ((acc @ [Some s0])) (tick w)
        = (Inr ((acc @ [Some s0]) @ map Some sums), w')"
    and l: "length sums = length chunks" and fl: "files w' = files (tick w)"
    and m: "(\<forall>t mdl s p. \<exists>e. chat_completion E t mdl s p = Inl e) \<longrightarrow>
                (\<forall>k<length sums. \<exists>e. sums ! k
                     = ''Error analyzing chunk '' @ str_int (i + 1 + int k) @ '': '' @ message e)"
    using Cons.IH [of "i + 1" "acc @ [Some s0]" "tick w"] by blast
  have a: "analyze_chunks self E (chunk # chunks) i m acc w
             = (Inr (acc @ map Some (s0 # sums)), w')"
    using c r by simp
  have b: "\<forall>k<length (s0 # sums). \<exists>e. (s0 # sums) ! k
              = ''Error analyzing chunk '' @ str_int (i + int k) @ '': '' @ message e"
    if all: "\<forall>t mdl s p. \<exists>e. chat_completion E t mdl s p = Inl e"
  proof (intro allI impI)
    fix k assume k: "k < length (s0 # sums)"
    show "\<exists>e. (s0 # sums) ! k
              = ''Error analyzing chunk '' @ str_int (i + int k) @ '': '' @ message e"
    proof (cases k)
      case 0
      then show ?thesis using m0 all by simp
    next
      case (Suc j)
      then have "j < length sums" using k by simp
      then obtain e where e: "sums ! j
          = ''Error analyzing chunk '' @ str_int (i + 1 + int j) @ '': '' @ message e"
        using m all by blast
      have "i + 1 + int j = i + int k" using Suc by simp
      then have "sums ! j
          = ''Error analyzing chunk '' @ str_int (i + int k) @ '': '' @ message e"
        using e by (simp only:)
      then show ?thesis using Suc by auto
    qed
  qed
  show ?case
    using a l fl b by (intro exI [of _ "s0 # sums"] exI [of _ w']) (simp add: files_tick)
qed

lemma pipeline_succeeds:
  assumes d: "download_pdf E pdf_url w = (Inr pdf_path, w1)"
    and x: "extract_text_from_pdf E pdf_path w1 = (Inr text, w2)"
    and s: "strip text \<noteq> []" and c: "chunk_text self text \<noteq> []"
    and tc: "dict_get (prompts self) ''CHUNK_ANALYSIS_PROMPT'' [] \<noteq> []"
    and fc: "\<forall>chunk n m. \<exists>p. str_format E (dict_get (prompts self) ''CHUNK_ANALYSIS_PROMPT'' [])
                 [(''chunk'', PyStr chunk), (''chunk_number'', PyInt n),
                  (''total_chunks'', PyInt m)] = Inr p"
    and ts: "dict_get (prompts self) ''SUMMARY_COMBINATION_PROMPT'' [] \<noteq> []"
    and fs: "\<forall>combined. \<exists>p. str_format E (dict_get (prompts self) ''SUMMARY_COMBINATION_PROMPT'' [])
                 [(''combined_text'', PyStr combined)] = Inr p"
    and nn: "\<forall>t mdl s p. chat_completion E t mdl s p \<noteq> Inr None"
    and wr: "\<forall>t. write_error E t (path_join output_dir (output_filename pdf_url url_index)) = None"
  shows "\<exists>final w4. try_block self E pdf_url output_dir url_index w
           = (Inr True, Some pdf_path,
              (tick w4)\<lparr>files := AList.update (path_join output_dir (output_filename pdf_url url_index))
                                   (report_text pdf_url final) (files w2)\<rparr>)
           \<and> ((\<forall>t mdl s p. \<exists>e. chat_completion E t mdl s p = Inl e) \<longrightarrow>
                (\<exists>e. final = ''Error generating final summary: '' @ message e))"
proof -
  obtain sums w3 where a: "analyze_chunks self E (chunk_text self text) 1
        (int (length (chunk_text self text))) [] w2 = (Inr ([] @ map Some sums), w3)"
    and f3: "files w3 = files w2"
    using analyze_chunks_summaries [OF tc fc nn] by blast
  obtain p where p: "str_format E (dict_get (prompts self) ''SUMMARY_COMBINATION_PROMPT'' [])
           [(''combined_text'', PyStr (join [newline, newline] sums))] = Inr p"
    using fs by blast
  obtain final where final: "(case chat_completion E (clock w3) (model self)
                         summary_system_message p of
                   Inl e \<Rightarrow> Some (''Error generating final summary: '' @ message e)
                 | Inr final_summary \<Rightarrow> final_summary) = Some final"
    and m: "(\<forall>t mdl s p. \<exists>e. chat_completion E t mdl s p = Inl e) \<longrightarrow>
                (\<exists>e. final = ''Error generating final summary: '' @ message e)"
    using summary_text [OF nn, where t = "clock w3" and mdl = "model self"
        and s = summary_system_message and p = p
        and marker = "\<lambda>e. ''Error generating final summary: '' @ message e"]
    by blast
  have b: "combine_summaries self E (map Some sums) w3 = (Inr (Some final), tick w3)"
    using combine_summaries_called [OF ts p, of w3] final by simp
  have "try_block self E pdf_url output_dir url_index w
           = (Inr True, Some pdf_path,
              (tick (tick w3))\<lparr>files := AList.update
                   (path_join output_dir (output_filename pdf_url url_index))
                   (report_text pdf_url final) (files w2)\<rparr>)"
    using d x s c a b wr f3 by (simp add: try_block_def Let_def files_tick)
  then show ?thesis using m by blast
qed

lemma example_download:
  "download_pdf example_outside ''https://www.pfizer.com/report.pdf'' w
     = (Inr ''/tmp/tmp1.pdf'',
        (tick (tick (tick w)))\<lparr>files := AList.update ''/tmp/tmp1.pdf'' ''%PDF-1.7'' (files w)\<rparr>)"
  by (simp add: download_pdf_def example_outside_def)

lemma example_pages:
  "join [newline, newline]
     (map clean_text (filter (\<lambda>page_text. page_text \<noteq> []) [''Revenue  grew.'', [], ''Costs fell.'']))
   = example_text"
  by (simp add: clean_text_join_split split.simps isspace_def example_text_def)

lemma example_extract:
  "map_of (files w) ''/tmp/tmp1.pdf'' = Some content \<Longrightarrow>
   extract_text_from_pdf example_outside ''/tmp/tmp1.pdf'' w = (Inr example_text, tick w)"
  using example_pages by (simp add: extract_text_from_pdf_def example_outside_def)

lemma example_strip: "strip example_text \<noteq> []"
  by (simp add: strip_def isspace_def newline_def example_text_def)

lemma example_split: "split example_text = [''Revenue'', ''grew.'', ''Costs'', ''fell.'']"
  by (simp add: split.simps isspace_def newline_def example_text_def)

lemma example_chunks:
  "chunk_size self = 2500 \<Longrightarrow> chunk_text self example_text = [''Revenue grew. Costs fell.'']"
  by (simp add: chunk_text_def example_split)

lemma example_filename:
  "path_join ''out'' (output_filename ''https://www.pfizer.com/report.pdf'' idx)
     = ''out/pfizer_analysis.txt''"
  by (simp add: path_join_def output_filename_def url_simps)


lemma analyze_single_report_succeeds:
  assumes d: "download_pdf E pdf_url w = (Inr pdf_path, w1)"
    and x: "extract_text_from_pdf E pdf_path w1 = (Inr text, w2)"
    and s: "strip text \<noteq> []" and c: "chunk_text self text \<noteq> []"
    and tc: "dict_get (prompts self) ''CHUNK_ANALYSIS_PROMPT'' [] \<noteq> []"
    and fc: "\<forall>chunk n m. \<exists>p. str_format E (dict_get (prompts self) ''CHUNK_ANALYSIS_PROMPT'' [])
                 [(''chunk'', PyStr chunk), (''chunk_number'', PyInt n),
                  (''total_chunks'', PyInt m)] = Inr p"
    and ts: "dict_get (prompts self) ''SUMMARY_COMBINATION_PROMPT'' [] \<noteq> []"
    and fs: "\<forall>combined. \<exists>p. str_format E (dict_get (prompts self) ''SUMMARY_COMBINATION_PROMPT'' [])
                 [(''combined_text'', PyStr combined)] = Inr p"
    and nn: "\<forall>t mdl s p. chat_completion E t mdl s p \<noteq> Inr None"
    and wr: "\<forall>t. write_error E t (path_join output_dir (output_filename pdf_url url_index)) = None"
  shows "fst (analyze_single_report self E pdf_url output_dir url_index w) = True"
    and "pdf_path \<noteq> path_join output_dir (output_filename pdf_url url_index) \<Longrightarrow>
         \<exists>final. map_of (files (snd (analyze_single_report self E pdf_url output_dir url_index w)))
                    (path_join output_dir (output_filename pdf_url url_index))
                  = Some (report_text pdf_url final)
            \<and> ((\<forall>t mdl s p. \<exists>e. chat_completion E t mdl s p = Inl e) \<longrightarrow>
                 (\<exists>e. final = ''Error generating final summary: '' @ message e))"
proof -
  obtain final w4 where t: "try_block self E pdf_url output_dir url_index w
           = (Inr True, Some pdf_path,
              (tick w4)\<lparr>files := AList.update (path_join output_dir (output_filename pdf_url url_index))
                                   (report_text pdf_url final) (files w2)\<rparr>)"
    and m: "(\<forall>t mdl s p. \<exists>e. chat_completion E t mdl s p = Inl e) \<longrightarrow>
                (\<exists>e. final = ''Error generating final summary: '' @ message e)"
    using pipeline_succeeds [OF d x s c tc fc ts fs nn wr] by blast
  show "fst (analyze_single_report self E pdf_url output_dir url_index w) = True"
    by (simp add: analyze_single_report_def t)
  show "\<exists>final. map_of (files (snd (analyze_single_report self E pdf_url output_dir url_index w)))
                    (path_join output_dir (output_filename pdf_url url_index))
                  = Some (report_text pdf_url final)
            \<and> ((\<forall>t mdl s p. \<exists>e. chat_completion E t mdl s p = Inl e) \<longrightarrow>
                 (\<exists>e. final = ''Error generating final summary: '' @ message e))"
    if "pdf_path \<noteq> path_join output_dir (output_filename pdf_url url_index)"
  proof -
    have "map_of (files (snd (analyze_single_report self E pdf_url output_dir url_index w)))
                    (path_join output_dir (output_filename pdf_url url_index))
                  = Some (report_text pdf_url final)"
      using that by (simp add: analyze_single_report_def t update_conv delete_conv)
    then show ?thesis using m by blast
  qed
qed

lemma example_formats:
  "\<forall>chunk n m. \<exists>p. str_format example_outside
        (dict_get (prompts example_analyzer) ''CHUNK_ANALYSIS_PROMPT'' [])
        [(''chunk'', PyStr chunk), (''chunk_number'', PyInt n), (''total_chunks'', PyInt m)] = Inr p"
  "\<forall>combined. \<exists>p. str_format example_outside
        (dict_get (prompts example_analyzer) ''SUMMARY_COMBINATION_PROMPT'' [])
        [(''combined_text'', PyStr combined)] = Inr p"
  by (simp_all add: example_analyzer_def example_outside_def dict_get_def)

lemma example_templates:
  "dict_get (prompts example_analyzer) ''CHUNK_ANALYSIS_PROMPT'' [] \<noteq> []"
  "dict_get (prompts example_analyzer) ''SUMMARY_COMBINATION_PROMPT'' [] \<noteq> []"
  by (simp_all add: example_analyzer_def dict_get_def)

lemma example_model_raises:
  "\<forall>t mdl s p. chat_completion example_outside t mdl s p \<noteq> Inr None"
  "\<forall>t mdl s p. \<exists>e. chat_completion example_outside t mdl s p = Inl e"
  by (simp_all add: example_outside_def)

section \<open>Reports with failing model calls\<close>

text \<open>
  C3, as the code has it. When the download, the extraction, the chunking and the write
  of the output file succeed, both templates are non-empty and format, on the arguments
  that the program passes, without an error, and no model call returns a response without
  text, \<open>analyze_single_report\<close> returns \<open>True\<close> whether the model calls raise or not. When
  every model call raises, the body of the file written (the temporary file being another
  file) is the marker \<open>Error generating final summary: {message}\<close>.
\<close>

theorem degraded_report_succeeds:
  "download_pdf E pdf_url w = (Inr pdf_path, w1)
   \<and> extract_text_from_pdf E pdf_path w1 = (Inr text, w2)
   \<and> strip text \<noteq> [] \<and> chunk_text self text \<noteq> []
   \<and> dict_get (prompts self) ''CHUNK_ANALYSIS_PROMPT'' [] \<noteq> []
   \<and> (\<forall>chunk n m. \<exists>p. str_format E (dict_get (prompts self) ''CHUNK_ANALYSIS_PROMPT'' [])
          [(''chunk'', PyStr chunk), (''chunk_number'', PyInt n), (''total_chunks'', PyInt m)]
        = Inr p)
   \<and> dict_get (prompts self) ''SUMMARY_COMBINATION_PROMPT'' [] \<noteq> []
   \<and> (\<forall>combined. \<exists>p. str_format E (dict_get (prompts self) ''SUMMARY_COMBINATION_PROMPT'' [])
          [(''combined_text'', PyStr combined)] = Inr p)
   \<and> (\<forall>t mdl s p. chat_completion E t mdl s p \<noteq> Inr None)
   \<and> (\<forall>t. write_error E t (path_join output_dir (output_filename pdf_url url_index)) = None)
   \<longrightarrow>
     fst (analyze_single_report self E pdf_url output_dir url_index w) = True
     \<and> (pdf_path \<noteq> path_join output_dir (output_filename pdf_url url_index)
        \<and> (\<forall>t mdl s p. \<exists>e. chat_completion E t mdl s p = Inl e)
        \<longrightarrow> (\<exists>e. map_of (files (snd (analyze_single_report self E pdf_url output_dir url_index w)))
                     (path_join output_dir (output_filename pdf_url url_index))
                   = Some (report_text pdf_url (''Error generating final summary: '' @ message e))))"
proof (intro impI, elim conjE)
  assume d: "download_pdf E pdf_url w = (Inr pdf_path, w1)"
    and x: "extract_text_from_pdf E pdf_path w1 = (Inr text, w2)"
    and s: "strip text \<noteq> []" and c: "chunk_text self text \<noteq> []"
    and tc: "dict_get (prompts self) ''CHUNK_ANALYSIS_PROMPT'' [] \<noteq> []"
    and fc: "\<forall>chunk n m. \<exists>p. str_format E (dict_get (prompts self) ''CHUNK_ANALYSIS_PROMPT'' [])
          [(''chunk'', PyStr chunk), (''chunk_number'', PyInt n), (''total_chunks'', PyInt m)]
        = Inr p"
    and ts: "dict_get (prompts self) ''SUMMARY_COMBINATION_PROMPT'' [] \<noteq> []"
    and fs: "\<forall>combined. \<exists>p. str_format E (dict_get (prompts self) ''SUMMARY_COMBINATION_PROMPT'' [])
          [(''combined_text'', PyStr combined)] = Inr p"
    and nn: "\<forall>t mdl s p. chat_completion E t mdl s p \<noteq> Inr None"
    and wr: "\<forall>t. write_error E t (path_join output_dir (output_filename pdf_url url_index)) = None"
  note r = analyze_single_report_succeeds [OF d x s c tc fc ts fs nn wr]
  show "fst (analyze_single_report self E pdf_url output_dir url_index w) = True
     \<and> (pdf_path \<noteq> path_join output_dir (output_filename pdf_url url_index)
        \<and> (\<forall>t mdl s p. \<exists>e. chat_completion E t mdl s p = Inl e)
        \<longrightarrow> (\<exists>e. map_of (files (snd (analyze_single_report self E pdf_url output_dir url_index w)))
                     (path_join output_dir (output_filename pdf_url url_index))
                   = Some (report_text pdf_url (''Error generating final summary: '' @ message e))))"
    using r by blast
qed

theorem degraded_report_succeeds_witness:
  "fst (analyze_single_report example_analyzer example_outside
          ''https://www.pfizer.com/report.pdf'' ''out'' 1 empty_world) = True
   \<and> (\<exists>e. map_of (files (snd (analyze_single_report example_analyzer example_outside
                 ''https://www.pfizer.com/report.pdf'' ''out'' 1 empty_world)))
              ''out/pfizer_analysis.txt''
            = Some (report_text ''https://www.pfizer.com/report.pdf''
                      (''Error generating final summary: '' @ message e)))"
proof -
  let ?w1 = "(tick (tick (tick empty_world)))
               \<lparr>files := AList.update ''/tmp/tmp1.pdf'' ''%PDF-1.7'' (files empty_world)\<rparr>"
  have d: "download_pdf example_outside ''https://www.pfizer.com/report.pdf'' empty_world
             = (Inr ''/tmp/tmp1.pdf'', ?w1)"
    by (rule example_download)
  have x: "extract_text_from_pdf example_outside ''/tmp/tmp1.pdf'' ?w1 = (Inr example_text, tick ?w1)"
    by (rule example_extract [of _ "''%PDF-1.7''"]) (simp add: empty_world_def tick_def)
  have c: "chunk_text example_analyzer example_text \<noteq> []"
    using example_chunks [of example_analyzer] by (simp add: example_analyzer_def)
  have wr: "\<forall>t. write_error example_outside t
             (path_join ''out'' (output_filename ''https://www.pfizer.com/report.pdf'' 1)) = None"
    by (simp add: example_outside_def)
  have h: "download_pdf example_outside ''https://www.pfizer.com/report.pdf'' empty_world
             = (Inr ''/tmp/tmp1.pdf'', ?w1)
   \<and> extract_text_from_pdf example_outside ''/tmp/tmp1.pdf'' ?w1 = (Inr example_text, tick ?w1)
   \<and> strip example_text \<noteq> [] \<and> chunk_text example_analyzer example_text \<noteq> []
   \<and> dict_get (prompts example_analyzer) ''CHUNK_ANALYSIS_PROMPT'' [] \<noteq> []
   \<and> (\<forall>chunk n m. \<exists>p. str_format example_outside
          (dict_get (prompts example_analyzer) ''CHUNK_ANALYSIS_PROMPT'' [])
          [(''chunk'', PyStr chunk), (''chunk_number'', PyInt n), (''total_chunks'', PyInt m)]
        = Inr p)
   \<and> dict_get (prompts example_analyzer) ''SUMMARY_COMBINATION_PROMPT'' [] \<noteq> []
   \<and> (\<forall>combined. \<exists>p. str_format example_outside
          (dict_get (prompts example_analyzer) ''SUMMARY_COMBINATION_PROMPT'' [])
          [(''combined_text'', PyStr combined)] = Inr p)
   \<and> (\<forall>t mdl s p. chat_completion example_outside t mdl s p \<noteq> Inr None)
   \<and> (\<forall>t. write_error example_outside t
             (path_join ''out'' (output_filename ''https://www.pfizer.com/report.pdf'' 1)) = None)"
    using d x c wr example_strip example_formats example_templates example_model_raises(1)
    by blast
  have f: "''/tmp/tmp1.pdf''
             \<noteq> path_join ''out'' (output_filename ''https://www.pfizer.com/report.pdf'' 1)
        \<and> (\<forall>t mdl s p. \<exists>e. chat_completion example_outside t mdl s p = Inl e)"
    using example_model_raises(2) by (simp add: example_filename)
  from degraded_report_succeeds [of example_outside "''https://www.pfizer.com/report.pdf''"
      empty_world "''/tmp/tmp1.pdf''" ?w1 example_text "tick ?w1" example_analyzer "''out''" 1] h f
  show ?thesis by (simp only: example_filename) blast
qed

text \<open>
  C3 as the specification states it fails. The prompt file with an empty first section is
  loaded; the download, the extraction and the chunking succeed and the disk takes every
  write; yet \<open>analyze_chunk\<close> raises on the empty template and the report fails.
\<close>

theorem blank_template_report_fails:
  "init 2500 ''gpt-4o-mini'' ''prompts.txt'' blank_template_world = Inr blank_template_analyzer
   \<and> download_pdf example_outside ''https://www.pfizer.com/report.pdf'' blank_template_world
       = (Inr ''/tmp/tmp1.pdf'',
          \<lparr>clock = 3, files = files blank_template_world @ [(''/tmp/tmp1.pdf'', ''%PDF-1.7'')]\<rparr>)
   \<and> extract_text_from_pdf example_outside ''/tmp/tmp1.pdf''
        \<lparr>clock = 3, files = files blank_template_world @ [(''/tmp/tmp1.pdf'', ''%PDF-1.7'')]\<rparr>
       = (Inr example_text,
          \<lparr>clock = 4, files = files blank_template_world @ [(''/tmp/tmp1.pdf'', ''%PDF-1.7'')]\<rparr>)
   \<and> chunk_text blank_template_analyzer example_text
       = [''Revenue grew. Costs fell.'']
   \<and> write_error example_outside 4 ''out/pfizer_analysis.txt'' = None
   \<and> analyze_single_report blank_template_analyzer example_outside
        ''https://www.pfizer.com/report.pdf'' ''out'' 1 blank_template_world
       = (False, \<lparr>clock = 4, files = files blank_template_world\<rparr>)"
proof -
  let ?w1 = "\<lparr>clock = 3, files = files blank_template_world @ [(''/tmp/tmp1.pdf'', ''%PDF-1.7'')]\<rparr>"
  have i: "init 2500 ''gpt-4o-mini'' ''prompts.txt'' blank_template_world
             = Inr blank_template_analyzer"
    by (simp add: init_def load_prompts_def parse_prompts_def strip_def isspace_def
        required_prompts_def blank_template_world_def blank_template_analyzer_def)
  have d: "download_pdf example_outside ''https://www.pfizer.com/report.pdf'' blank_template_world
             = (Inr ''/tmp/tmp1.pdf'', ?w1)"
    by (simp add: example_download blank_template_world_def tick_def)
  have x: "extract_text_from_pdf example_outside ''/tmp/tmp1.pdf'' ?w1
             = (Inr example_text,
                \<lparr>clock = 4, files = files blank_template_world @ [(''/tmp/tmp1.pdf'', ''%PDF-1.7'')]\<rparr>)"
    using example_extract [of ?w1 "''%PDF-1.7''"]
    by (simp add: blank_template_world_def tick_def)
  have c: "chunk_text blank_template_analyzer example_text = [''Revenue grew. Costs fell.'']"
    by (rule example_chunks) (simp add: blank_template_analyzer_def)
  have w: "write_error example_outside 4 ''out/pfizer_analysis.txt'' = None"
    by (simp add: example_outside_def)
  have a: "analyze_chunk blank_template_analyzer example_outside chunk i m w'
           = (Inl (ValueError ''CHUNK_ANALYSIS_PROMPT not found in prompts file''), w')"
    for chunk i m w'
    by (simp add: analyze_chunk_def blank_template_analyzer_def dict_get_def)
  have t: "try_block blank_template_analyzer example_outside
        ''https://www.pfizer.com/report.pdf'' ''out'' 1 blank_template_world
       = (Inl (ValueError ''CHUNK_ANALYSIS_PROMPT not found in prompts file''),
          Some ''/tmp/tmp1.pdf'',
          \<lparr>clock = 4, files = files blank_template_world @ [(''/tmp/tmp1.pdf'', ''%PDF-1.7'')]\<rparr>)"
    using example_strip by (simp add: try_block_def d x c a)
  have r: "analyze_single_report blank_template_analyzer example_outside
        ''https://www.pfizer.com/report.pdf'' ''out'' 1 blank_template_world
       = (False, \<lparr>clock = 4, files = files blank_template_world\<rparr>)"
    unfolding analyze_single_report_def t by (simp add: blank_template_world_def)
  from i d x c w r show ?thesis by blast
qed

text \<open>
  Two more reports that fail although the download, the extraction and the chunking
  succeed and the disk takes every write: one with a model whose responses have no text
  (\<open>join\<close> raises \<open>TypeError\<close> on the summaries), one with a chunk template that has a field
  the program does not pass (\<open>str.format\<close> raises \<open>KeyError\<close>).
\<close>

lemma silent_model_report_fails:
  "analyze_single_report example_analyzer silent_outside
        ''https://www.pfizer.com/report.pdf'' ''out'' 1 empty_world
     = (False, \<lparr>clock = 5, files = []\<rparr>)"
proof -
  let ?w1 = "(tick (tick (tick empty_world)))
               \<lparr>files := AList.update ''/tmp/tmp1.pdf'' ''%PDF-1.7'' (files empty_world)\<rparr>"
  have d: "download_pdf silent_outside ''https://www.pfizer.com/report.pdf'' empty_world
             = (Inr ''/tmp/tmp1.pdf'', ?w1)"
    by (simp add: download_pdf_def silent_outside_def example_outside_def)
  have x: "extract_text_from_pdf silent_outside ''/tmp/tmp1.pdf'' ?w1
             = (Inr example_text, tick ?w1)"
    using example_pages
    by (simp add: extract_text_from_pdf_def silent_outside_def example_outside_def
        empty_world_def tick_def)
  have c: "chunk_text example_analyzer example_text = [''Revenue grew. Costs fell.'']"
    by (rule example_chunks) (simp add: example_analyzer_def)
  have a: "analyze_chunk example_analyzer silent_outside ''Revenue grew. Costs fell.'' 1 1 w'
             = (Inr None, tick w')" for w'
    by (simp add: analyze_chunk_def example_analyzer_def silent_outside_def example_outside_def
        dict_get_def)
  have b: "combine_summaries example_analyzer silent_outside [None] w'
             = (Inl (TypeError ''sequence item 0: expected str instance, NoneType found''), w')"
    for w'
    by (simp add: combine_summaries_def str_nat.simps digit_char_def)
  have t: "try_block example_analyzer silent_outside
        ''https://www.pfizer.com/report.pdf'' ''out'' 1 empty_world
       = (Inl (TypeError ''sequence item 0: expected str instance, NoneType found''),
          Some ''/tmp/tmp1.pdf'', tick (tick ?w1))"
    using example_strip by (simp add: try_block_def d x c a b)
  show ?thesis
    unfolding analyze_single_report_def t by (simp add: empty_world_def tick_def)
qed

lemma unknown_field_report_fails:
  "analyze_single_report unknown_field_analyzer example_outside
        ''https://www.pfizer.com/report.pdf'' ''out'' 1 empty_world
     = (False, \<lparr>clock = 4, files = []\<rparr>)"
proof -
  let ?w1 = "(tick (tick (tick empty_world)))
               \<lparr>files := AList.update ''/tmp/tmp1.pdf'' ''%PDF-1.7'' (files empty_world)\<rparr>"
  have d: "download_pdf example_outside ''https://www.pfizer.com/report.pdf'' empty_world
             = (Inr ''/tmp/tmp1.pdf'', ?w1)"
    by (rule example_download)
  have x: "extract_text_from_pdf example_outside ''/tmp/tmp1.pdf'' ?w1
             = (Inr example_text, tick ?w1)"
    by (rule example_extract [of _ "''%PDF-1.7''"]) (simp add: empty_world_def tick_def)
  have c: "chunk_text unknown_field_analyzer example_text = [''Revenue grew. Costs fell.'']"
    by (rule example_chunks) (simp add: unknown_field_analyzer_def example_analyzer_def)
  have a: "analyze_chunk unknown_field_analyzer example_outside ''Revenue grew. Costs fell.'' 1 1 w'
             = (Inl (KeyError ''text''), w')" for w'
    by (simp add: analyze_chunk_def unknown_field_analyzer_def example_analyzer_def
        example_outside_def dict_get_def)
  have t: "try_block unknown_field_analyzer example_outside
        ''https://www.pfizer.com/report.pdf'' ''out'' 1 empty_world
       = (Inl (KeyError ''text''), Some ''/tmp/tmp1.pdf'', tick ?w1)"
    using example_strip by (simp add: try_block_def d x c a)
  show ?thesis
    unfolding analyze_single_report_def t by (simp add: empty_world_def tick_def)
qed

section \<open>Failed downloads and the temporary file\<close>

lemma try_block_download_failed:
  "download_pdf E pdf_url w = (Inl e, w1) \<Longrightarrow>
     try_block self E pdf_url output_dir url_index w = (Inl e, None, w1)"
  by (simp add: try_block_def)

lemma try_block_keeps_path:
  "download_pdf E pdf_url w = (Inr pdf_path, w1) \<Longrightarrow>
     \<exists>outcome w'. try_block self E pdf_url output_dir url_index w = (outcome, Some pdf_path, w')"
  by (simp add: try_block_def Let_def split: prod.split sum.split option.split)

lemma download_pdf_http_failure:
  "requests_get E (clock w) pdf_url = Inl e \<Longrightarrow> download_pdf E pdf_url w = (Inl e, tick w)"
  by (simp add: download_pdf_def)

lemma cleanup_removes:
  "p \<noteq> [] \<Longrightarrow>
   map_of (files (if p \<noteq> [] \<and> map_of (files w) p \<noteq> None
                  then w\<lparr>files := AList.delete p (files w)\<rparr> else w)) p = None"
  by (simp add: delete_conv)

text \<open>
  C4. When the download fails, \<open>analyze_single_report\<close> returns \<open>False\<close> and leaves the
  world as the failed download left it; when it is the HTTP request that fails, the files
  are those of before the call, so no output file is written. When \<open>download_pdf\<close> returns
  the path of the temporary file it created, no file of that path exists when
  \<open>analyze_single_report\<close> returns, whatever happened in between.
\<close>

theorem download_failure_and_cleanup:
  "(download_pdf E pdf_url w = (Inl e, w1) \<longrightarrow>
      analyze_single_report self E pdf_url output_dir url_index w = (False, w1))
   \<and> (requests_get E (clock w) pdf_url = Inl e \<longrightarrow>
        fst (analyze_single_report self E pdf_url output_dir url_index w) = False
        \<and> files (snd (analyze_single_report self E pdf_url output_dir url_index w)) = files w)
   \<and> (download_pdf E pdf_url w = (Inr pdf_path, w1) \<and> pdf_path \<noteq> [] \<longrightarrow>
        map_of (files (snd (analyze_single_report self E pdf_url output_dir url_index w))) pdf_path
          = None)"
proof -
  have a: "analyze_single_report self E pdf_url output_dir url_index w = (False, w1)"
    if "download_pdf E pdf_url w = (Inl e, w1)"
    using try_block_download_failed [OF that] by (simp add: analyze_single_report_def)
  have b: "fst (analyze_single_report self E pdf_url output_dir url_index w) = False
        \<and> files (snd (analyze_single_report self E pdf_url output_dir url_index w)) = files w"
    if "requests_get E (clock w) pdf_url = Inl e"
    using try_block_download_failed [OF download_pdf_http_failure [OF that]]
    by (simp add: analyze_single_report_def files_tick)
  have c: "map_of (files (snd (analyze_single_report self E pdf_url output_dir url_index w)))
             pdf_path = None"
    if d: "download_pdf E pdf_url w = (Inr pdf_path, w1)" and n: "pdf_path \<noteq> []"
  proof -
    obtain outcome w' where t: "try_block self E pdf_url output_dir url_index w
        = (outcome, Some pdf_path, w')"
      using try_block_keeps_path [OF d] by blast
    show ?thesis
      using cleanup_removes [OF n, of w'] by (simp add: analyze_single_report_def t)
  qed
  from a b c show ?thesis by blast
qed

theorem download_failure_and_cleanup_witness:
  "analyze_single_report example_analyzer example_outside ''http://b.example.com/b.pdf'' ''out'' 2
       empty_world = (False, tick empty_world)
   \<and> files (snd (analyze_single_report example_analyzer example_outside
                  ''http://b.example.com/b.pdf'' ''out'' 2 empty_world)) = []
   \<and> map_of (files (snd (analyze_single_report example_analyzer example_outside
                  ''https://www.pfizer.com/report.pdf'' ''out'' 1 empty_world)))
        ''/tmp/tmp1.pdf'' = None"
proof -
  have g: "requests_get example_outside (clock empty_world) ''http://b.example.com/b.pdf''
             = Inl (RequestException ''404 Client Error'')"
    by (simp add: example_outside_def)
  have d: "download_pdf example_outside ''http://b.example.com/b.pdf'' empty_world
             = (Inl (RequestException ''404 Client Error''), tick empty_world)"
    using g by (rule download_pdf_http_failure)
  note t1 = download_failure_and_cleanup [of example_outside "''http://b.example.com/b.pdf''"
      empty_world "RequestException ''404 Client Error''" "tick empty_world" example_analyzer
      "''out''" 2]
  have a: "analyze_single_report example_analyzer example_outside ''http://b.example.com/b.pdf''
      ''out'' 2 empty_world = (False, tick empty_world)"
    using t1 d by blast
  have b: "files (snd (analyze_single_report example_analyzer example_outside
                  ''http://b.example.com/b.pdf'' ''out'' 2 empty_world)) = []"
    using t1 g by (simp add: empty_world_def)
  have c: "map_of (files (snd (analyze_single_report example_analyzer example_outside
                  ''https://www.pfizer.com/report.pdf'' ''out'' 1 empty_world)))
        ''/tmp/tmp1.pdf'' = None"
    using download_failure_and_cleanup [of example_outside "''https://www.pfizer.com/report.pdf''"
      empty_world _ _ example_analyzer "''out''" 1 "''/tmp/tmp1.pdf''"]
      example_download [of empty_world]
    by simp
  from a b c show ?thesis by blast
qed

section \<open>The batch\<close>

lemma update_new_key: "k \<notin> fst ` set al \<Longrightarrow> AList.update k v al = al @ [(k, v)]"
  by (induction al) auto

lemma loop_trace:
  "snd (analyze_all_loop (traced f) output_dir i urls results calls)
     = calls @ zip urls (map (\<lambda>k. i + int k) [0..<length urls])"
proof (induction urls arbitrary: i results calls)
  case Nil
  then show ?case by simp
next
  case (Cons url urls)
  have "map (\<lambda>k. i + int k) [0..<length (url # urls)]
          = i # map (\<lambda>k. (i + 1) + int k) [0..<length urls]"
    by (simp add: upt_conv_Cons map_Suc_upt [symmetric] del: upt_Suc)
  then show ?case using Cons.IH [of "i + 1"] by (simp add: traced_def del: upt_Suc)
qed





lemma loop_distinct_urls:
  "distinct urls \<Longrightarrow> set urls \<inter> fst ` set results = {} \<Longrightarrow>
     fst (analyze_all_loop run output_dir i urls results w)
       = results @ zip urls (outcomes run output_dir i urls w)"
proof (induction urls arbitrary: i results w)
  case Nil
  then show ?case by simp
next
  case (Cons url urls)
  obtain s w' where r: "run url output_dir i w = (s, w')" by (cases "run url output_dir i w")
  have u: "AList.update url s results = results @ [(url, s)]"
    using Cons.prems by (intro update_new_key) auto
  have "set urls \<inter> fst ` set (results @ [(url, s)]) = {}"
    using Cons.prems by auto
  then have "fst (analyze_all_loop run output_dir (i + 1) urls (results @ [(url, s)]) w')
       = (results @ [(url, s)]) @ zip urls (outcomes run output_dir (i + 1) urls w')"
    using Cons.prems by (intro Cons.IH) simp_all
  then show ?case using r u by simp
qed



lemma upt_one_based: "map (\<lambda>k. 1 + int k) [0..<n] = map int [1..<Suc n]"
proof -
  have "map int [1..<Suc n] = map int (map Suc [0..<n])"
    by (simp only: map_Suc_upt One_nat_def)
  then show ?thesis by (simp add: o_def)
qed

lemma report_download_failed:
  "requests_get E (clock w) url = Inl e \<Longrightarrow>
     analyze_single_report self E url output_dir idx w = (False, tick w)"
  using try_block_download_failed [OF download_pdf_http_failure]
  by (simp add: analyze_single_report_def)

lemma analyze_all_reports_loop:
  "read_urls_from_file url_file w = Inr urls \<Longrightarrow>
     analyze_all_reports self E url_file output_dir w
       = (Inr (fst (analyze_all_loop (analyze_single_report self E) output_dir 1 urls [] w)),
          snd (analyze_all_loop (analyze_single_report self E) output_dir 1 urls [] w))"
  by (simp add: analyze_all_reports_def split: prod.split)

lemma read_urls_not_empty: "read_urls_from_file url_file w = Inr urls \<Longrightarrow> urls \<noteq> []"
  by (auto simp: read_urls_from_file_def Let_def split: option.splits if_splits)

lemma example_download_any:
  "url \<noteq> ''http://b.example.com/b.pdf'' \<Longrightarrow>
   download_pdf example_outside url w
     = (Inr ''/tmp/tmp1.pdf'',
        (tick (tick (tick w)))\<lparr>files := AList.update ''/tmp/tmp1.pdf'' ''%PDF-1.7'' (files w)\<rparr>)"
  by (simp add: download_pdf_def example_outside_def)

lemma example_report_true:
  assumes "url \<noteq> ''http://b.example.com/b.pdf''"
  shows "fst (analyze_single_report example_analyzer example_outside url output_dir idx w) = True"
proof (rule analyze_single_report_succeeds(1))
  let ?w1 = "(tick (tick (tick w)))\<lparr>files := AList.update ''/tmp/tmp1.pdf'' ''%PDF-1.7'' (files w)\<rparr>"
  show "download_pdf example_outside url w = (Inr ''/tmp/tmp1.pdf'', ?w1)"
    using assms by (rule example_download_any)
  show "extract_text_from_pdf example_outside ''/tmp/tmp1.pdf'' ?w1 = (Inr example_text, tick ?w1)"
    by (rule example_extract [of _ "''%PDF-1.7''"]) (simp add: update_conv')
  show "strip example_text \<noteq> []" by (rule example_strip)
  show "chunk_text example_analyzer example_text \<noteq> []"
    using example_chunks [of example_analyzer] by (simp add: example_analyzer_def)
  show "dict_get (prompts example_analyzer) ''CHUNK_ANALYSIS_PROMPT'' [] \<noteq> []"
    by (rule example_templates)
  show "\<forall>chunk n m. \<exists>p. str_format example_outside
        (dict_get (prompts example_analyzer) ''CHUNK_ANALYSIS_PROMPT'' [])
        [(''chunk'', PyStr chunk), (''chunk_number'', PyInt n), (''total_chunks'', PyInt m)] = Inr p"
    by (rule example_formats)
  show "dict_get (prompts example_analyzer) ''SUMMARY_COMBINATION_PROMPT'' [] \<noteq> []"
    by (rule example_templates)
  show "\<forall>combined. \<exists>p. str_format example_outside
        (dict_get (prompts example_analyzer) ''SUMMARY_COMBINATION_PROMPT'' [])
        [(''combined_text'', PyStr combined)] = Inr p"
    by (rule example_formats)
  show "\<forall>t mdl s p. chat_completion example_outside t mdl s p \<noteq> Inr None"
    by (rule example_model_raises)
  show "\<forall>t. write_error example_outside t (path_join output_dir (output_filename url idx)) = None"
    by (simp add: example_outside_def)
qed

lemma example_read_urls:
  "read_urls_from_file ''urls.txt'' example_batch_world
     = Inr [''https://www.pfizer.com/report.pdf'', ''http://b.example.com/b.pdf'',
            ''https://example.com/x.pdf'']"
  by (simp add: read_urls_from_file_def example_batch_world_def readlines_def newline_def
      strip_def isspace_def startswith_def)

text \<open>
  C5. The loop calls the pipeline once for each URL, in the order of the file, with the
  indices 1, 2, ... and whatever the calls return; \<open>analyze_all_reports\<close> is that loop on
  the URLs read from the file, of which there is at least one. For distinct URLs the
  dictionary lists the URLs in that order, each with the result of its run. With three
  distinct URLs of which the first and the third succeed and the second fails at its
  download, the dictionary is \<open>{url1: True, url2: False, url3: True}\<close>.
\<close>

theorem batch_runs_each_url_in_order:
  "snd (analyze_all_loop (traced f) output_dir 1 urls [] [])
     = zip urls (map int [1..<Suc (length urls)])
   \<and> (read_urls_from_file url_file w = Inr urls \<longrightarrow>
        urls \<noteq> []
        \<and> analyze_all_reports self E url_file output_dir w
            = (Inr (fst (analyze_all_loop (analyze_single_report self E) output_dir 1 urls [] w)),
               snd (analyze_all_loop (analyze_single_report self E) output_dir 1 urls [] w)))
   \<and> (read_urls_from_file url_file w = Inr urls \<and> distinct urls \<longrightarrow>
        fst (analyze_all_reports self E url_file output_dir w)
          = Inr (zip urls (outcomes (analyze_single_report self E) output_dir 1 urls w)))
   \<and> (read_urls_from_file url_file w = Inr [url1, url2, url3] \<and> distinct [url1, url2, url3]
      \<and> analyze_single_report self E url1 output_dir 1 w = (True, w1)
      \<and> requests_get E (clock w1) url2 = Inl e
      \<and> analyze_single_report self E url3 output_dir 3 (tick w1) = (True, w3)
      \<longrightarrow> analyze_all_reports self E url_file output_dir w
            = (Inr [(url1, True), (url2, False), (url3, True)], w3))"
proof -
  have a: "snd (analyze_all_loop (traced f) output_dir 1 urls [] [])
     = zip urls (map int [1..<Suc (length urls)])"
    using loop_trace [of f output_dir 1 urls "[]" "[]"] by (simp only: upt_one_based) simp
  have b: "urls \<noteq> []
        \<and> analyze_all_reports self E url_file output_dir w
            = (Inr (fst (analyze_all_loop (analyze_single_report self E) output_dir 1 urls [] w)),
               snd (analyze_all_loop (analyze_single_report self E) output_dir 1 urls [] w))"
    if "read_urls_from_file url_file w = Inr urls"
    using read_urls_not_empty [OF that] analyze_all_reports_loop [OF that] by blast
  have c: "fst (analyze_all_reports self E url_file output_dir w)
          = Inr (zip urls (outcomes (analyze_single_report self E) output_dir 1 urls w))"
    if r: "read_urls_from_file url_file w = Inr urls" and d: "distinct urls"
    using loop_distinct_urls [OF d, of "[]" "analyze_single_report self E" output_dir 1 w]
    by (simp add: analyze_all_reports_loop [OF r])
  have d: "analyze_all_reports self E url_file output_dir w
            = (Inr [(url1, True), (url2, False), (url3, True)], w3)"
    if r: "read_urls_from_file url_file w = Inr [url1, url2, url3]"
      and di: "distinct [url1, url2, url3]"
      and r1: "analyze_single_report self E url1 output_dir 1 w = (True, w1)"
      and g: "requests_get E (clock w1) url2 = Inl e"
      and r3: "analyze_single_report self E url3 output_dir 3 (tick w1) = (True, w3)"
  proof -
    have r2: "analyze_single_report self E url2 output_dir 2 w1 = (False, tick w1)"
      using g by (rule report_download_failed)
    show ?thesis
      using di by (simp add: analyze_all_reports_loop [OF r] r1 r2 r3)
  qed
  from a b c d show ?thesis by blast
qed

theorem batch_runs_each_url_in_order_witness:
  "fst (analyze_all_reports example_analyzer example_outside ''urls.txt'' ''out''
          example_batch_world)
     = Inr [(''https://www.pfizer.com/report.pdf'', True), (''http://b.example.com/b.pdf'', False),
            (''https://example.com/x.pdf'', True)]"
proof -
  let ?u1 = "''https://www.pfizer.com/report.pdf''"
  let ?u2 = "''http://b.example.com/b.pdf''"
  let ?u3 = "''https://example.com/x.pdf''"
  let ?r1 = "analyze_single_report example_analyzer example_outside ?u1 ''out'' 1
               example_batch_world"
  let ?r3 = "analyze_single_report example_analyzer example_outside ?u3 ''out'' 3 (tick (snd ?r1))"
  have r1: "?r1 = (True, snd ?r1)"
    using example_report_true [of ?u1 "''out''" 1 example_batch_world]
    by (simp add: prod_eq_iff)
  have r3: "?r3 = (True, snd ?r3)"
    using example_report_true [of ?u3 "''out''" 3 "tick (snd ?r1)"]
    by (simp add: prod_eq_iff)
  have g: "requests_get example_outside (clock (snd ?r1)) ?u2
             = Inl (RequestException ''404 Client Error'')"
    by (simp add: example_outside_def)
  have di: "distinct [?u1, ?u2, ?u3]" by simp
  have "analyze_all_reports example_analyzer example_outside ''urls.txt'' ''out''
          example_batch_world
        = (Inr [(?u1, True), (?u2, False), (?u3, True)], snd ?r3)"
    using batch_runs_each_url_in_order [of _ "''out''" _ "''urls.txt''" example_batch_world
        example_analyzer example_outside ?u1 ?u2 ?u3 "snd ?r1"
        "RequestException ''404 Client Error''" "snd ?r3"]
      example_read_urls r1 r3 g di
    by blast
  then show ?thesis by simp
qed

section \<open>Duplicate URLs\<close>





end
